theory Spec2Isabelle
  imports Complex_Main "HOL-Library.Sublist"
begin

section \<open>The DeepCASE command-line driver (deepcase/__main__.py)\<close>

text \<open>
  The driver is a straight-line script: it parses its arguments, calls the
  preprocessor, optionally saves and loads the sequences, and then creates, fits, saves
  and loads a ContextBuilder and an Interpreter, depending on the mode. Everything it
  calls (Preprocessor, ContextBuilder, Interpreter, show_sequences, torch) lives in
  other modules. The model therefore records every call of the script, with its
  arguments, in a trace; what a call returns, and whether it raises, is taken from an
  environment. Objects of the other modules are represented by the history of the
  calls that built them.
\<close>

subsection \<open>Values\<close>

text \<open>A torch tensor: the device it lives on, its shape and its elements in row order.\<close>

datatype 'a tensor = Tensor (t_device: string) (t_shape: "nat list") (t_data: "'a list")

text \<open>\<^verbatim>\<open>t.to(device)\<close>: the same tensor on another device.\<close>

definition tensor_to :: "'a tensor \<Rightarrow> string \<Rightarrow> 'a tensor" where
  "tensor_to t d = Tensor d (t_shape t) (t_data t)"

text \<open>\<^verbatim>\<open>t.reshape(-1, 1)\<close>: one column, as many rows as the tensor has elements.\<close>

definition reshape_col :: "'a tensor \<Rightarrow> 'a tensor" where
  "reshape_col t = Tensor (t_device t) [prod_list (t_shape t), 1] (t_data t)"

text \<open>\<^verbatim>\<open>t.shape[0]\<close>: indexing the empty shape of a 0-dimensional tensor raises IndexError.\<close>

definition shape0 :: "'a tensor \<Rightarrow> nat option" where
  "shape0 t = (case t_shape t of [] \<Rightarrow> None | n # _ \<Rightarrow> Some n)"

text \<open>\<^verbatim>\<open>torch.zeros(shape, device=d)\<close> and \<^verbatim>\<open>t - c\<close> for a scalar c.\<close>

definition zeros :: "nat list \<Rightarrow> string \<Rightarrow> rat tensor" where
  "zeros shp d = Tensor d shp (replicate (prod_list shp) 0)"

definition sub_scalar :: "rat tensor \<Rightarrow> rat \<Rightarrow> rat tensor" where
  "sub_scalar t c = Tensor (t_device t) (t_shape t) (map (\<lambda>x. x - c) (t_data t))"

text \<open>
  The mapping is a Python dict from event index to event name, kept as its items;
  \<^verbatim>\<open>len(mapping)\<close> is the number of its keys.
\<close>

type_synonym mapping = "(int \<times> string) list"

definition len_mapping :: "mapping \<Rightarrow> int" where
  "len_mapping m = int (length (remdups (map fst m)))"

text \<open>
  The four values the preprocessor returns, the dict that \<^verbatim>\<open>torch.save\<close> writes and
  the dict \<^verbatim>\<open>torch.load\<close> reads back.
\<close>

record seqdata =
  d_events :: "int tensor"
  d_context :: "int tensor"
  d_label :: "int tensor option"
  d_mapping :: mapping

text \<open>
  A ContextBuilder object, as the history of the calls that made it:
  the constructor (input_size, output_size, hidden_size, num_layers, max_length,
  bidirectional, LSTM), \<^verbatim>\<open>.to(device)\<close>, \<^verbatim>\<open>.fit\<close>
  (X, y, epochs, batch_size, learning_rate, teach_ratio, verbose), which changes the
  object in place, and \<^verbatim>\<open>ContextBuilder.load(path, device)\<close>.
\<close>

datatype context_builder =
    ContextBuilder_new int int int int int bool bool
  | ContextBuilder_moved context_builder string
  | ContextBuilder_fitted context_builder "int tensor" "int tensor" int int rat rat bool
  | ContextBuilder_loaded string string

text \<open>
  An Interpreter object: the constructor (context_builder, features, eps, min_samples,
  threshold), \<^verbatim>\<open>.fit\<close> (X, y, score, iterations, batch_size, verbose) and
  \<^verbatim>\<open>Interpreter.load(path, context_builder)\<close>.
\<close>

datatype interpreter =
    Interpreter_new context_builder int rat int rat
  | Interpreter_fitted interpreter "int tensor" "int tensor" "rat tensor" int int bool
  | Interpreter_loaded string context_builder

subsection \<open>Calls, exceptions and the environment\<close>

text \<open>Every call the script makes into another module, with its arguments.\<close>

datatype call =
    Preprocessor_init int rat
  | Preprocessor_csv string
  | Preprocessor_txt string
  | Open_file string string
  | Torch_save seqdata string
  | Torch_load string
  | Show_sequences "int tensor" "int tensor" "int tensor option" mapping int
  | Sys_exit
  | Cuda_is_available
  | Tensor_to "int tensor" string
  | ContextBuilder_init int int int int int bool bool
  | ContextBuilder_to context_builder string
  | ContextBuilder_fit context_builder "int tensor" "int tensor" int int rat rat bool
  | ContextBuilder_save context_builder string
  | ContextBuilder_load string string
  | Interpreter_init context_builder int rat int rat
  | Interpreter_fit interpreter "int tensor" "int tensor" "rat tensor" int int bool
  | Interpreter_save interpreter string
  | Interpreter_load string context_builder
  | Print string

datatype exn =
    ValueError string
  | NameError string
  | KeyError
  | IndexError
  | EncoderRequired
  | Foreign string

text \<open>How a run stops early: an exception reaches the top level, or \<^verbatim>\<open>exit()\<close>.\<close>

datatype stop = Raised exn | Exited

text \<open>
  What the other modules and the interpreter's built-ins do:
  \<^item> \<open>raises c\<close>: the exception the call \<open>c\<close> raises, if it raises;
  \<^item> \<open>preprocessor_csv\<close>, \<open>preprocessor_txt\<close>: what the preprocessor returns for a path;
  \<^item> \<open>torch_load\<close>: the four entries of the dict read from a path, \<open>None\<close> when the
    dict lacks one of the four keys;
  \<^item> \<open>cuda_available\<close>: the result of \<^verbatim>\<open>torch.cuda.is_available()\<close>;
  \<^item> \<open>py_int\<close>: the built-in \<^verbatim>\<open>int\<close> on a string, \<open>None\<close> when it raises ValueError;
  \<^item> \<open>NO_EVENT\<close>: the attribute of that name of the Preprocessor object.
\<close>

record env =
  raises :: "call \<Rightarrow> exn option"
  preprocessor_csv :: "string \<Rightarrow> seqdata"
  preprocessor_txt :: "string \<Rightarrow> seqdata"
  torch_load :: "string \<Rightarrow> seqdata option"
  cuda_available :: bool
  py_int :: "string \<Rightarrow> int option"
  NO_EVENT :: int

subsection \<open>Programs with a trace\<close>

text \<open>
  A piece of the script yields the calls it made, in order, and either a value or
  the reason it stopped.
\<close>

type_synonym 'a prog = "(stop + 'a) \<times> call list"

definition ret :: "'a \<Rightarrow> 'a prog" where
  "ret x = (Inr x, [])"

definition raise :: "exn \<Rightarrow> 'a prog" where
  "raise e = (Inl (Raised e), [])"

definition bind :: "'a prog \<Rightarrow> ('a \<Rightarrow> 'b prog) \<Rightarrow> 'b prog" where
  "bind m f =
     (case fst m of
        Inl s \<Rightarrow> (Inl s, snd m)
      | Inr x \<Rightarrow> (fst (f x), snd m @ snd (f x)))"

definition do_call :: "env \<Rightarrow> call \<Rightarrow> unit prog" where
  "do_call E c =
     (case raises E c of
        Some e \<Rightarrow> (Inl (Raised e), [c])
      | None \<Rightarrow> (Inr (), [c]))"

text \<open>\<^verbatim>\<open>exit()\<close> ends the run.\<close>

definition exited :: "'a prog" where
  "exited = (Inl Exited, [])"

text \<open>Reading a variable that no statement has bound raises NameError.\<close>

definition lookup :: "string \<Rightarrow> 'a option \<Rightarrow> 'a prog" where
  "lookup name v = (case v of None \<Rightarrow> raise (NameError name) | Some x \<Rightarrow> ret x)"

text \<open>Python's truth value of an optional string: None and the empty string are false.\<close>

definition truthy :: "string option \<Rightarrow> bool" where
  "truthy s = (case s of None \<Rightarrow> False | Some p \<Rightarrow> p \<noteq> [])"

subsection \<open>Arguments\<close>

datatype mode = Sequence | Train | Manual | Automatic

record args =
  mode :: mode
  csv :: "string option"
  txt_arg :: "string option"
  events :: string
  length_arg :: int
  timeout :: rat
  save_sequences :: "string option"
  load_sequences :: "string option"
  hidden :: int
  delta :: rat
  save_builder :: "string option"
  load_builder :: "string option"
  confidence :: rat
  epsilon :: rat
  min_samples :: int
  save_interpreter :: "string option"
  load_interpreter :: "string option"
  epochs :: int
  batch :: int
  device :: string

text \<open>The namespace argparse returns when only the mode is given: every default.\<close>

definition default_args :: "mode \<Rightarrow> args" where
  "default_args m =
     \<lparr> mode = m, csv = None, txt_arg = None, events = ''auto'',
       length_arg = 10, timeout = 86400,
       save_sequences = None, load_sequences = None,
       hidden = 128, delta = 1 / 10,
       save_builder = None, load_builder = None,
       confidence = 2 / 10, epsilon = 1 / 10, min_samples = 5,
       save_interpreter = None, load_interpreter = None,
       epochs = 10, batch = 128, device = ''auto'' \<rparr>"

text \<open>
  An option given on the command line, after argparse has converted its value
  (\<^verbatim>\<open>type=int\<close>, \<^verbatim>\<open>type=float\<close>). Each option stores its value in the namespace;
  when an option is repeated the last one wins.
\<close>

datatype cli_opt =
    Opt_csv string
  | Opt_txt string
  | Opt_events string
  | Opt_length int
  | Opt_timeout rat
  | Opt_save_sequences string
  | Opt_load_sequences string
  | Opt_hidden int
  | Opt_delta rat
  | Opt_save_builder string
  | Opt_load_builder string
  | Opt_confidence rat
  | Opt_epsilon rat
  | Opt_min_samples int
  | Opt_save_interpreter string
  | Opt_load_interpreter string
  | Opt_epochs int
  | Opt_batch int
  | Opt_device string

fun store :: "args \<Rightarrow> cli_opt \<Rightarrow> args" where
  "store a (Opt_csv s) = a\<lparr>csv := Some s\<rparr>"
| "store a (Opt_txt s) = a\<lparr>txt_arg := Some s\<rparr>"
| "store a (Opt_events s) = a\<lparr>events := s\<rparr>"
| "store a (Opt_length n) = a\<lparr>length_arg := n\<rparr>"
| "store a (Opt_timeout r) = a\<lparr>timeout := r\<rparr>"
| "store a (Opt_save_sequences s) = a\<lparr>save_sequences := Some s\<rparr>"
| "store a (Opt_load_sequences s) = a\<lparr>load_sequences := Some s\<rparr>"
| "store a (Opt_hidden n) = a\<lparr>hidden := n\<rparr>"
| "store a (Opt_delta r) = a\<lparr>delta := r\<rparr>"
| "store a (Opt_save_builder s) = a\<lparr>save_builder := Some s\<rparr>"
| "store a (Opt_load_builder s) = a\<lparr>load_builder := Some s\<rparr>"
| "store a (Opt_confidence r) = a\<lparr>confidence := r\<rparr>"
| "store a (Opt_epsilon r) = a\<lparr>epsilon := r\<rparr>"
| "store a (Opt_min_samples n) = a\<lparr>min_samples := n\<rparr>"
| "store a (Opt_save_interpreter s) = a\<lparr>save_interpreter := Some s\<rparr>"
| "store a (Opt_load_interpreter s) = a\<lparr>load_interpreter := Some s\<rparr>"
| "store a (Opt_epochs n) = a\<lparr>epochs := n\<rparr>"
| "store a (Opt_batch n) = a\<lparr>batch := n\<rparr>"
| "store a (Opt_device s) = a\<lparr>device := s\<rparr>"

definition parse_args :: "mode \<Rightarrow> cli_opt list \<Rightarrow> args" where
  "parse_args m opts = foldl store (default_args m) opts"

subsection \<open>The script\<close>

text \<open>The string held by an option that is known to be set.\<close>

definition path :: "string option \<Rightarrow> string" where
  "path s = (case s of None \<Rightarrow> [] | Some p \<Rightarrow> p)"

text \<open>
  A. Security event sequences: create the preprocessor, refuse \<^verbatim>\<open>--csv\<close> together
  with \<^verbatim>\<open>--txt\<close>, load the file. With neither file the four variables stay unbound.
\<close>

definition load_files :: "env \<Rightarrow> args \<Rightarrow> seqdata option prog" where
  "load_files E a =
     bind (do_call E (Preprocessor_init (length_arg a) (timeout a))) (\<lambda>_.
       if csv a \<noteq> None \<and> txt_arg a \<noteq> None then
         raise (ValueError ''Please specify EITHER --csv OR --txt.'')
       else if truthy (csv a) then
         bind (do_call E (Preprocessor_csv (path (csv a)))) (\<lambda>_.
           ret (Some (preprocessor_csv E (path (csv a)))))
       else if truthy (txt_arg a) then
         bind (do_call E (Preprocessor_txt (path (txt_arg a)))) (\<lambda>_.
           ret (Some (preprocessor_txt E (path (txt_arg a)))))
       else ret None)"

text \<open>Save sequences if necessary: the file is opened before the variables are read.\<close>

definition store_sequences :: "env \<Rightarrow> args \<Rightarrow> seqdata option \<Rightarrow> unit prog" where
  "store_sequences E a seq =
     (if truthy (save_sequences a) then
        bind (do_call E (Open_file (path (save_sequences a)) ''wb'')) (\<lambda>_.
        bind (lookup ''events'' seq) (\<lambda>d.
          do_call E (Torch_save d (path (save_sequences a)))))
      else ret ())"

text \<open>Load sequences if necessary: the four variables are bound to the loaded entries.\<close>

definition fetch_sequences :: "env \<Rightarrow> args \<Rightarrow> seqdata option \<Rightarrow> seqdata option prog" where
  "fetch_sequences E a seq =
     (if truthy (load_sequences a) then
        bind (do_call E (Open_file (path (load_sequences a)) ''rb'')) (\<lambda>_.
        bind (do_call E (Torch_load (path (load_sequences a)))) (\<lambda>_.
          case torch_load E (path (load_sequences a)) of
            None \<Rightarrow> raise KeyError
          | Some d \<Rightarrow> ret (Some d)))
      else ret seq)"

text \<open>If sequence mode, output result and exit.\<close>

definition sequence_mode :: "env \<Rightarrow> args \<Rightarrow> seqdata option \<Rightarrow> unit prog" where
  "sequence_mode E a seq =
     (if mode a = Sequence then
        bind (lookup ''context'' seq) (\<lambda>d.
        bind (do_call E (Show_sequences (d_context d) (d_events d) (d_label d)
                           (d_mapping d) (NO_EVENT E))) (\<lambda>_.
        bind (do_call E Sys_exit) (\<lambda>_. exited)))
      else ret ())"

text \<open>
  Set "auto" arguments: the device, the number of events, and the two tensors cast to
  the device. The result is (device, events, events tensor, context tensor).
\<close>

definition set_auto ::
  "env \<Rightarrow> args \<Rightarrow> seqdata option \<Rightarrow> (string \<times> int \<times> int tensor \<times> int tensor) prog" where
  "set_auto E a seq =
     bind (if device a = ''auto'' then
             bind (do_call E Cuda_is_available) (\<lambda>_.
               ret (if cuda_available E then ''cuda'' else ''cpu''))
           else ret (device a)) (\<lambda>dev.
     bind (if events a = ''auto'' then
             bind (lookup ''mapping'' seq) (\<lambda>d. ret (len_mapping (d_mapping d)))
           else (case py_int E (events a) of
                   None \<Rightarrow> raise (ValueError ''invalid literal for int()'')
                 | Some n \<Rightarrow> ret n)) (\<lambda>n.
     bind (lookup ''events'' seq) (\<lambda>d.
     bind (do_call E (Tensor_to (d_events d) dev)) (\<lambda>_.
     bind (do_call E (Tensor_to (d_context d) dev)) (\<lambda>_.
       ret (dev, n, tensor_to (d_events d) dev, tensor_to (d_context d) dev))))))"

text \<open>B. Context Builder: create, fit in train mode, save, load.\<close>

definition make_context_builder ::
  "env \<Rightarrow> args \<Rightarrow> string \<Rightarrow> int \<Rightarrow> int tensor \<Rightarrow> int tensor \<Rightarrow> context_builder prog" where
  "make_context_builder E a dev n ev ctx =
     bind (do_call E (ContextBuilder_init n n (hidden a) 1 (length_arg a) False False)) (\<lambda>_.
     bind (do_call E (ContextBuilder_to
             (ContextBuilder_new n n (hidden a) 1 (length_arg a) False False) dev)) (\<lambda>_.
     bind (let b = ContextBuilder_moved
                     (ContextBuilder_new n n (hidden a) 1 (length_arg a) False False) dev
           in if mode a = Train then
                bind (do_call E (ContextBuilder_fit b ctx (reshape_col ev)
                                   (epochs a) (batch a) (1 / 100) (1 / 2) True)) (\<lambda>_.
                  ret (ContextBuilder_fitted b ctx (reshape_col ev)
                         (epochs a) (batch a) (1 / 100) (1 / 2) True))
              else ret b) (\<lambda>b.
     bind (if truthy (save_builder a) then
             do_call E (ContextBuilder_save b (path (save_builder a)))
           else ret ()) (\<lambda>_.
       if truthy (load_builder a) then
         bind (do_call E (ContextBuilder_load (path (load_builder a)) dev)) (\<lambda>_.
           ret (ContextBuilder_loaded (path (load_builder a)) dev))
       else ret b))))"

text \<open>C. Interpreter: create, fit in train mode with a score of -4 per event, save, load.\<close>

definition make_interpreter ::
  "env \<Rightarrow> args \<Rightarrow> string \<Rightarrow> int \<Rightarrow> int tensor \<Rightarrow> int tensor \<Rightarrow> context_builder
     \<Rightarrow> interpreter prog" where
  "make_interpreter E a dev n ev ctx b =
     bind (do_call E (Interpreter_init b n (epsilon a) (min_samples a) (confidence a))) (\<lambda>_.
     bind (let i = Interpreter_new b n (epsilon a) (min_samples a) (confidence a)
           in if mode a = Train then
                (case shape0 ev of
                   None \<Rightarrow> raise IndexError
                 | Some k \<Rightarrow>
                     bind (do_call E (Interpreter_fit i ctx (reshape_col ev)
                                        (sub_scalar (zeros [k, 1] dev) 4) 100 1024 True)) (\<lambda>_.
                       ret (Interpreter_fitted i ctx (reshape_col ev)
                              (sub_scalar (zeros [k, 1] dev) 4) 100 1024 True)))
              else ret i) (\<lambda>i.
     bind (if truthy (save_interpreter a) then
             do_call E (Interpreter_save i (path (save_interpreter a)))
           else ret ()) (\<lambda>_.
       if truthy (load_interpreter a) then
         bind (do_call E (Interpreter_load (path (load_interpreter a)) b)) (\<lambda>_.
           ret (Interpreter_loaded (path (load_interpreter a)) b))
       else ret i)))"

text \<open>D. Manual analysis (\<^verbatim>\<open>pass\<close>) and E. Semi-automatic analysis (a print).\<close>

definition analysis :: "env \<Rightarrow> args \<Rightarrow> unit prog" where
  "analysis E a =
     bind (if mode a = Manual then ret () else ret ()) (\<lambda>_.
       if mode a = Automatic then do_call E (Print ''SEMI-AUTOMATIC mode'') else ret ())"

text \<open>The variables \<^verbatim>\<open>context_builder\<close> and \<^verbatim>\<open>interpreter\<close> when the script ends.\<close>

record final =
  f_context_builder :: context_builder
  f_interpreter :: interpreter

text \<open>The part of the script after the sequence-mode exit.\<close>

definition models :: "env \<Rightarrow> args \<Rightarrow> seqdata option \<Rightarrow> final prog" where
  "models E a seq =
     bind (set_auto E a seq) (\<lambda>(dev, n, ev, ctx).
     bind (make_context_builder E a dev n ev ctx) (\<lambda>b.
     bind (make_interpreter E a dev n ev ctx b) (\<lambda>i.
     bind (analysis E a) (\<lambda>_.
       ret \<lparr> f_context_builder = b, f_interpreter = i \<rparr>))))"

definition main :: "env \<Rightarrow> args \<Rightarrow> final prog" where
  "main E a =
     bind (load_files E a) (\<lambda>seq0.
     bind (store_sequences E a seq0) (\<lambda>_.
     bind (fetch_sequences E a seq0) (\<lambda>seq.
     bind (sequence_mode E a seq) (\<lambda>_.
       models E a seq))))"

text \<open>The calls of a run and how it ended.\<close>

definition trace :: "'a prog \<Rightarrow> call list" where
  "trace m = snd m"

definition outcome :: "'a prog \<Rightarrow> stop + 'a" where
  "outcome m = fst m"

text \<open>
  The script up to the sequence-mode test: it yields what the variables
  \<^verbatim>\<open>events\<close>, \<^verbatim>\<open>context\<close>, \<^verbatim>\<open>label\<close> and \<^verbatim>\<open>mapping\<close> hold from there on.
\<close>

definition sequences :: "env \<Rightarrow> args \<Rightarrow> seqdata option prog" where
  "sequences E a =
     bind (load_files E a) (\<lambda>seq0.
     bind (store_sequences E a seq0) (\<lambda>_.
       fetch_sequences E a seq0))"

text \<open>The same, followed by the sequence-mode report and exit.\<close>

definition prelude :: "env \<Rightarrow> args \<Rightarrow> seqdata option prog" where
  "prelude E a =
     bind (sequences E a) (\<lambda>seq.
     bind (sequence_mode E a seq) (\<lambda>_. ret seq))"

text \<open>
  The part of the script a call belongs to: sequencing (section A and the
  sequence-mode report), the "auto" arguments, the ContextBuilder (section B), the
  Interpreter (section C) and the analysis (sections D and E).
\<close>

datatype stage = Sequencing | Setup | Builder | Interp | Analysis

fun stage_of :: "call \<Rightarrow> stage" where
  "stage_of (Preprocessor_init _ _) = Sequencing"
| "stage_of (Preprocessor_csv _) = Sequencing"
| "stage_of (Preprocessor_txt _) = Sequencing"
| "stage_of (Open_file _ _) = Sequencing"
| "stage_of (Torch_save _ _) = Sequencing"
| "stage_of (Torch_load _) = Sequencing"
| "stage_of (Show_sequences _ _ _ _ _) = Sequencing"
| "stage_of Sys_exit = Sequencing"
| "stage_of Cuda_is_available = Setup"
| "stage_of (Tensor_to _ _) = Setup"
| "stage_of (ContextBuilder_init _ _ _ _ _ _ _) = Builder"
| "stage_of (ContextBuilder_to _ _) = Builder"
| "stage_of (ContextBuilder_fit _ _ _ _ _ _ _ _) = Builder"
| "stage_of (ContextBuilder_save _ _) = Builder"
| "stage_of (ContextBuilder_load _ _) = Builder"
| "stage_of (Interpreter_init _ _ _ _ _) = Interp"
| "stage_of (Interpreter_fit _ _ _ _ _ _ _) = Interp"
| "stage_of (Interpreter_save _ _) = Interp"
| "stage_of (Interpreter_load _ _) = Interp"
| "stage_of (Print _) = Analysis"

text \<open>A call that constructs, trains, saves or loads a ContextBuilder or an Interpreter.\<close>

definition model_call :: "call \<Rightarrow> bool" where
  "model_call c = (stage_of c = Builder \<or> stage_of c = Interp)"

text \<open>A call that writes state to a path or reads state from one.\<close>

fun persists :: "call \<Rightarrow> bool" where
  "persists (Torch_save _ _) = True"
| "persists (Torch_load _) = True"
| "persists (ContextBuilder_save _ _) = True"
| "persists (ContextBuilder_load _ _) = True"
| "persists (Interpreter_save _ _) = True"
| "persists (Interpreter_load _ _) = True"
| "persists _ = False"

text \<open>
  The calls of a program that satisfy \<open>P\<close> are, in order, those of the list \<open>l\<close>:
  all of them when the program returns, the first few when it stops early.
\<close>

definition emits :: "(call \<Rightarrow> bool) \<Rightarrow> 'a prog \<Rightarrow> call list \<Rightarrow> bool" where
  "emits P m l \<longleftrightarrow>
     prefix (filter P (trace m)) l \<and> (\<forall>x. outcome m = Inr x \<longrightarrow> filter P (trace m) = l)"

subsection \<open>What the variables hold\<close>

text \<open>The device once the "auto" argument is set (lines 127-128).\<close>

definition device_in_use :: "env \<Rightarrow> args \<Rightarrow> string" where
  "device_in_use E a =
     (if device a = ''auto'' then (if cuda_available E then ''cuda'' else ''cpu'')
      else device a)"

text \<open>
  The number of events once the "auto" argument is set (lines 131-134), for the
  sequences \<open>d\<close> in use; \<open>None\<close> when \<^verbatim>\<open>int\<close> raises.
\<close>

definition events_in_use :: "env \<Rightarrow> args \<Rightarrow> seqdata \<Rightarrow> int option" where
  "events_in_use E a d =
     (if events a = ''auto'' then Some (len_mapping (d_mapping d)) else py_int E (events a))"

text \<open>
  The object this run computes for \<^verbatim>\<open>context_builder\<close> (lines 145-167): constructed,
  moved to the device and, in train mode, fitted on the context and the reshaped events,
  both cast to the device.
\<close>

definition computed_builder :: "args \<Rightarrow> string \<Rightarrow> int \<Rightarrow> seqdata \<Rightarrow> context_builder" where
  "computed_builder a dev n d =
     (let b = ContextBuilder_moved
                (ContextBuilder_new n n (hidden a) 1 (length_arg a) False False) dev
      in if mode a = Train then
           ContextBuilder_fitted b (tensor_to (d_context d) dev)
             (reshape_col (tensor_to (d_events d) dev)) (epochs a) (batch a) (1 / 100) (1 / 2) True
         else b)"

text \<open>What \<^verbatim>\<open>context_builder\<close> holds after the optional load (lines 174-175).\<close>

definition builder_in_use :: "args \<Rightarrow> string \<Rightarrow> int \<Rightarrow> seqdata \<Rightarrow> context_builder" where
  "builder_in_use a dev n d =
     (if truthy (load_builder a) then ContextBuilder_loaded (path (load_builder a)) dev
      else computed_builder a dev n d)"

text \<open>
  The object this run computes for \<^verbatim>\<open>interpreter\<close> (lines 182-201): constructed on the
  ContextBuilder in use and, in train mode, fitted with a score of \<open>k\<close> rows, where
  \<open>k\<close> is \<^verbatim>\<open>events.shape[0]\<close>.
\<close>

definition computed_interpreter ::
  "args \<Rightarrow> string \<Rightarrow> int \<Rightarrow> seqdata \<Rightarrow> nat \<Rightarrow> interpreter" where
  "computed_interpreter a dev n d k =
     (let i = Interpreter_new (builder_in_use a dev n d) n (epsilon a) (min_samples a)
                (confidence a)
      in if mode a = Train then
           Interpreter_fitted i (tensor_to (d_context d) dev)
             (reshape_col (tensor_to (d_events d) dev)) (sub_scalar (zeros [k, 1] dev) 4)
             100 1024 True
         else i)"

text \<open>What \<^verbatim>\<open>interpreter\<close> holds after the optional load (lines 208-212).\<close>

definition interpreter_in_use ::
  "args \<Rightarrow> string \<Rightarrow> int \<Rightarrow> seqdata \<Rightarrow> nat \<Rightarrow> interpreter" where
  "interpreter_in_use a dev n d k =
     (if truthy (load_interpreter a) then
        Interpreter_loaded (path (load_interpreter a)) (builder_in_use a dev n d)
      else computed_interpreter a dev n d k)"

subsection \<open>The constructor of the Interpreter\<close>

text \<open>
  Modelled from the spec: whether a ContextEncoder counts as fitted. The class is in
  deepcase/context_builder.py, which is not among the sources; section 4.2 of the
  specification makes it usable after a fit or a load.
\<close>

fun fitted_builder :: "context_builder \<Rightarrow> bool" where
  "fitted_builder (ContextBuilder_new _ _ _ _ _ _ _) = False"
| "fitted_builder (ContextBuilder_moved b _) = fitted_builder b"
| "fitted_builder (ContextBuilder_fitted _ _ _ _ _ _ _ _) = True"
| "fitted_builder (ContextBuilder_loaded _ _) = True"

text \<open>
  Modelled from the spec: the constructor of the Interpreter, which is in
  deepcase/interpreter.py and not among the sources. Section 4.3: the Interpreter
  "fails with EncoderRequired if constructed without a fitted ContextEncoder reference".
\<close>

definition interpreter_init_raises :: "context_builder \<Rightarrow> exn option" where
  "interpreter_init_raises b = (if fitted_builder b then None else Some EncoderRequired)"

text \<open>
  Modelled from the spec: an environment in which the Interpreter constructor behaves
  as section 4.3 says.
\<close>

definition spec_interpreter :: "env \<Rightarrow> bool" where
  "spec_interpreter E \<longleftrightarrow>
     (\<forall>b f e ms th. raises E (Interpreter_init b f e ms th) = interpreter_init_raises b)"

text \<open>
  Modelled from the spec: the error taxonomy of section 7. A ModelStateError is raised by
  an operation that requires a fitted or loaded encoder before that state exists;
  EncoderRequired is that error of the Interpreter constructor.
\<close>

fun model_state_error :: "exn \<Rightarrow> bool" where
  "model_state_error EncoderRequired = True"
| "model_state_error _ = False"

subsection \<open>A sample environment\<close>

text \<open>
  Three events over two event types from the preprocessor, two events over three
  event types in every saved file, no call raises, no GPU.
\<close>

definition ex_data :: seqdata where
  "ex_data = \<lparr> d_events = Tensor ''cpu'' [3] [0, 1, 0],
               d_context = Tensor ''cpu'' [3, 2] [5, 5, 5, 0, 0, 1],
               d_label = None,
               d_mapping = [(0, ''login''), (1, ''scan'')] \<rparr>"

definition ex_loaded :: seqdata where
  "ex_loaded = \<lparr> d_events = Tensor ''cpu'' [2] [2, 1],
                 d_context = Tensor ''cpu'' [2, 1] [5, 2],
                 d_label = None,
                 d_mapping = [(0, ''login''), (1, ''scan''), (2, ''exfil'')] \<rparr>"

definition ex_env :: env where
  "ex_env = \<lparr> raises = (\<lambda>_. None),
              preprocessor_csv = (\<lambda>_. ex_data),
              preprocessor_txt = (\<lambda>_. ex_data),
              torch_load = (\<lambda>_. Some ex_loaded),
              cuda_available = False,
              py_int = (\<lambda>s. if s = ''7'' then Some 7 else None),
              NO_EVENT = - 1337 \<rparr>"

text \<open>The same environment with the Interpreter constructor of the specification.\<close>

definition ex_spec_env :: env where
  "ex_spec_env =
     ex_env \<lparr> raises := (\<lambda>c. case c of
                            Interpreter_init b _ _ _ _ \<Rightarrow> interpreter_init_raises b
                          | _ \<Rightarrow> None) \<rparr>"

section \<open>Properties\<close>

subsection \<open>Traces and outcomes of composed programs\<close>

lemma trace_ret [simp]: "trace (ret x) = []"
  by (simp add: trace_def ret_def)

lemma outcome_ret [simp]: "outcome (ret x) = Inr x"
  by (simp add: outcome_def ret_def)

lemma trace_raise [simp]: "trace (raise e) = []"
  by (simp add: trace_def raise_def)

lemma outcome_raise [simp]: "outcome (raise e) = Inl (Raised e)"
  by (simp add: outcome_def raise_def)

lemma trace_exited [simp]: "trace exited = []"
  by (simp add: trace_def exited_def)

lemma outcome_exited [simp]: "outcome exited = Inl Exited"
  by (simp add: outcome_def exited_def)

lemma trace_do_call [simp]: "trace (do_call E c) = [c]"
  by (simp add: trace_def do_call_def split: option.splits)

lemma outcome_do_call:
  "outcome (do_call E c) = (case raises E c of Some e \<Rightarrow> Inl (Raised e) | None \<Rightarrow> Inr ())"
  by (simp add: outcome_def do_call_def split: option.splits)

lemma trace_bind:
  "trace (bind m f) = (case outcome m of Inl s \<Rightarrow> trace m | Inr x \<Rightarrow> trace m @ trace (f x))"
  by (simp add: trace_def outcome_def bind_def split: sum.splits)

lemma outcome_bind:
  "outcome (bind m f) = (case outcome m of Inl s \<Rightarrow> Inl s | Inr x \<Rightarrow> outcome (f x))"
  by (simp add: outcome_def bind_def split: sum.splits)

lemma prog_eqI: "outcome m = outcome m' \<Longrightarrow> trace m = trace m' \<Longrightarrow> m = m'"
  by (simp add: outcome_def trace_def prod_eq_iff)

lemma bind_assoc: "bind (bind m f) g = bind m (\<lambda>x. bind (f x) g)"
  by (rule prog_eqI) (simp_all add: outcome_bind trace_bind split: sum.splits)

lemma bind_ret_left: "bind (ret x) f = f x"
  by (rule prog_eqI) (simp_all add: outcome_bind trace_bind)

lemma main_prelude: "main E a = bind (prelude E a) (models E a)"
  by (simp add: main_def prelude_def sequences_def bind_assoc bind_ret_left)

lemma trace_lookup [simp]: "trace (lookup name v) = []"
  by (simp add: lookup_def split: option.splits)

lemma outcome_lookup:
  "outcome (lookup name v) = (case v of None \<Rightarrow> Inl (Raised (NameError name)) | Some x \<Rightarrow> Inr x)"
  by (simp add: lookup_def split: option.splits)

lemmas step = trace_bind outcome_bind outcome_do_call outcome_lookup

subsection \<open>Each section makes calls of its own stage\<close>

lemma stage_load_files:
  "c \<in> set (trace (load_files E a)) \<Longrightarrow> stage_of c = Sequencing"
  by (auto simp: load_files_def step split: sum.splits option.splits if_splits)

lemma stage_store_sequences:
  "c \<in> set (trace (store_sequences E a seq)) \<Longrightarrow> stage_of c = Sequencing"
  by (auto simp: store_sequences_def step split: sum.splits option.splits if_splits)

lemma stage_fetch_sequences:
  "c \<in> set (trace (fetch_sequences E a seq)) \<Longrightarrow> stage_of c = Sequencing"
  by (auto simp: fetch_sequences_def step split: sum.splits option.splits if_splits)

lemma stage_sequence_mode:
  "c \<in> set (trace (sequence_mode E a seq)) \<Longrightarrow> stage_of c = Sequencing"
  by (auto simp: sequence_mode_def step split: sum.splits option.splits if_splits)

lemma stage_sequences:
  "c \<in> set (trace (sequences E a)) \<Longrightarrow> stage_of c = Sequencing"
  by (auto simp: sequences_def trace_bind split: sum.splits
           dest: stage_load_files stage_store_sequences stage_fetch_sequences)

lemma stage_prelude:
  "c \<in> set (trace (prelude E a)) \<Longrightarrow> stage_of c = Sequencing"
  by (auto simp: prelude_def trace_bind split: sum.splits
           dest: stage_sequences stage_sequence_mode)

lemma stage_set_auto:
  "c \<in> set (trace (set_auto E a seq)) \<Longrightarrow> stage_of c = Setup"
  by (auto simp: set_auto_def step split: sum.splits option.splits if_splits)

lemma stage_make_context_builder:
  "c \<in> set (trace (make_context_builder E a dev n ev ctx)) \<Longrightarrow> stage_of c = Builder"
  by (auto simp: make_context_builder_def Let_def step split: sum.splits option.splits if_splits)

lemma stage_make_interpreter:
  "c \<in> set (trace (make_interpreter E a dev n ev ctx b)) \<Longrightarrow> stage_of c = Interp"
  by (auto simp: make_interpreter_def Let_def step split: sum.splits option.splits if_splits)

lemma stage_analysis:
  "c \<in> set (trace (analysis E a)) \<Longrightarrow> stage_of c = Analysis"
  by (auto simp: analysis_def step split: sum.splits option.splits if_splits)

lemma in_main_cases:
  assumes "c \<in> set (trace (main E a))"
  shows "c \<in> set (trace (prelude E a)) \<or>
         (\<exists>seq. outcome (prelude E a) = Inr seq \<and> c \<in> set (trace (models E a seq)))"
  using assms by (auto simp: main_prelude trace_bind split: sum.splits)

lemma in_models_cases:
  assumes "c \<in> set (trace (models E a seq))"
  shows "c \<in> set (trace (set_auto E a seq)) \<or>
         (\<exists>dev n ev ctx. outcome (set_auto E a seq) = Inr (dev, n, ev, ctx) \<and>
            (c \<in> set (trace (make_context_builder E a dev n ev ctx)) \<or>
             (\<exists>b. outcome (make_context_builder E a dev n ev ctx) = Inr b \<and>
                (c \<in> set (trace (make_interpreter E a dev n ev ctx b)) \<or>
                 (\<exists>i. outcome (make_interpreter E a dev n ev ctx b) = Inr i \<and>
                      c \<in> set (trace (analysis E a)))))))"
  using assms by (auto simp: models_def trace_bind split: sum.splits prod.splits)

lemma reach_builder:
  assumes "c \<in> set (trace (main E a))" and "stage_of c = Builder"
  shows "\<exists>seq dev n ev ctx. outcome (prelude E a) = Inr seq \<and>
           outcome (set_auto E a seq) = Inr (dev, n, ev, ctx) \<and>
           c \<in> set (trace (make_context_builder E a dev n ev ctx))"
proof -
  from in_main_cases [OF assms(1)] assms(2) obtain seq
    where p: "outcome (prelude E a) = Inr seq" and m: "c \<in> set (trace (models E a seq))"
    by (auto dest: stage_prelude)
  from in_models_cases [OF m] assms(2) p show ?thesis
    by (auto dest: stage_set_auto stage_make_interpreter stage_analysis)
qed

lemma reach_interp:
  assumes "c \<in> set (trace (main E a))" and "stage_of c = Interp"
  shows "\<exists>seq dev n ev ctx b. outcome (prelude E a) = Inr seq \<and>
           outcome (set_auto E a seq) = Inr (dev, n, ev, ctx) \<and>
           outcome (make_context_builder E a dev n ev ctx) = Inr b \<and>
           c \<in> set (trace (make_interpreter E a dev n ev ctx b))"
proof -
  from in_main_cases [OF assms(1)] assms(2) obtain seq
    where p: "outcome (prelude E a) = Inr seq" and m: "c \<in> set (trace (models E a seq))"
    by (auto dest: stage_prelude)
  from in_models_cases [OF m] assms(2) p show ?thesis
    by (auto dest: stage_set_auto stage_make_context_builder stage_analysis)
qed

subsection \<open>What the sections return\<close>

lemma outcome_sequence_mode:
  "outcome (sequence_mode E a seq) = Inr u \<Longrightarrow> mode a \<noteq> Sequence"
  by (auto simp: sequence_mode_def step split: sum.splits option.splits if_splits)

lemma outcome_prelude:
  "outcome (prelude E a) = Inr seq \<Longrightarrow> mode a \<noteq> Sequence \<and> outcome (sequences E a) = Inr seq"
  by (auto simp: prelude_def step split: sum.splits dest: outcome_sequence_mode)

lemma outcome_load_files:
  assumes "outcome (load_files E a) = Inr s0"
  shows "s0 = (if truthy (csv a) then Some (preprocessor_csv E (path (csv a)))
               else if truthy (txt_arg a) then Some (preprocessor_txt E (path (txt_arg a)))
               else None) \<and> (csv a = None \<or> txt_arg a = None)"
  using assms
  by (simp add: load_files_def step split: sum.splits option.splits if_splits)

lemma outcome_fetch_sequences:
  assumes "outcome (fetch_sequences E a s0) = Inr seq"
  shows "seq = (if truthy (load_sequences a) then torch_load E (path (load_sequences a)) else s0) \<and>
         (truthy (load_sequences a) \<longrightarrow> seq \<noteq> None)"
  using assms
  by (auto simp: fetch_sequences_def step split: sum.splits option.splits if_splits)

lemma outcome_sequences:
  assumes "outcome (sequences E a) = Inr seq"
  shows "seq = (if truthy (load_sequences a) then torch_load E (path (load_sequences a))
                else if truthy (csv a) then Some (preprocessor_csv E (path (csv a)))
                else if truthy (txt_arg a) then Some (preprocessor_txt E (path (txt_arg a)))
                else None) \<and>
         (truthy (load_sequences a) \<longrightarrow> seq \<noteq> None) \<and>
         (csv a = None \<or> txt_arg a = None)"
proof -
  from assms obtain s0 where l: "outcome (load_files E a) = Inr s0"
    and f: "outcome (fetch_sequences E a s0) = Inr seq"
    by (auto simp: sequences_def outcome_bind split: sum.splits)
  from outcome_load_files [OF l] outcome_fetch_sequences [OF f] show ?thesis
    by auto
qed

lemma outcome_set_auto:
  assumes "outcome (set_auto E a seq) = Inr (dev, n, ev, ctx)"
  shows "\<exists>d. seq = Some d \<and> ev = tensor_to (d_events d) dev \<and> ctx = tensor_to (d_context d) dev \<and>
             (if events a = ''auto'' then n = len_mapping (d_mapping d)
              else py_int E (events a) = Some n) \<and>
             dev = (if device a = ''auto'' then (if cuda_available E then ''cuda'' else ''cpu'')
                    else device a)"
  using assms
  by (auto simp: set_auto_def step split: sum.splits option.splits if_splits)

subsection \<open>The order of the two fits\<close>

lemmas run_defs =
  main_def models_def load_files_def store_sequences_def fetch_sequences_def
  sequence_mode_def set_auto_def make_context_builder_def make_interpreter_def
  analysis_def sequences_def prelude_def
  bind_def do_call_def ret_def raise_def exited_def lookup_def truthy_def path_def
  trace_def outcome_def parse_args_def default_args_def
  tensor_to_def reshape_col_def shape0_def zeros_def sub_scalar_def len_mapping_def

lemmas ex_defs = ex_env_def ex_data_def ex_loaded_def

lemma split_right:
  assumes "xs @ ys = pre @ c # post" and "c \<notin> set xs"
  shows "\<exists>q. pre = xs @ q \<and> ys = q @ c # post"
  using assms
  by (auto simp: append_eq_append_conv2 append_eq_Cons_conv Cons_eq_append_conv)

lemma trace_main_interp:
  assumes "c \<in> set (trace (main E a))" and "stage_of c = Interp"
  shows "\<exists>seq dev n ev ctx b rest.
           outcome (prelude E a) = Inr seq \<and>
           outcome (set_auto E a seq) = Inr (dev, n, ev, ctx) \<and>
           outcome (make_context_builder E a dev n ev ctx) = Inr b \<and>
           c \<in> set (trace (make_interpreter E a dev n ev ctx b)) \<and>
           trace (main E a) =
             (trace (prelude E a) @ trace (set_auto E a seq) @
              trace (make_context_builder E a dev n ev ctx)) @ rest"
proof -
  from reach_interp [OF assms] obtain seq dev n ev ctx b
    where p: "outcome (prelude E a) = Inr seq"
      and s: "outcome (set_auto E a seq) = Inr (dev, n, ev, ctx)"
      and b: "outcome (make_context_builder E a dev n ev ctx) = Inr b"
      and c: "c \<in> set (trace (make_interpreter E a dev n ev ctx b))"
    by blast
  have "\<exists>rest. trace (main E a) =
          (trace (prelude E a) @ trace (set_auto E a seq) @
           trace (make_context_builder E a dev n ev ctx)) @ rest"
    by (simp add: main_prelude models_def trace_bind p s b)
  with p s b c show ?thesis by blast
qed

lemma fit_in_make_context_builder:
  assumes "outcome (make_context_builder E a dev n ev ctx) = Inr b" and "mode a = Train"
  shows "ContextBuilder_fit
           (ContextBuilder_moved (ContextBuilder_new n n (hidden a) 1 (length_arg a) False False) dev)
           ctx (reshape_col ev) (epochs a) (batch a) (1 / 100) (1 / 2) True
         \<in> set (trace (make_context_builder E a dev n ev ctx))"
  using assms
  by (auto simp: make_context_builder_def Let_def step split: sum.splits option.splits if_splits)

lemma fit_in_make_interpreter:
  assumes "Interpreter_fit ip X y sc it bs vb \<in> set (trace (make_interpreter E a dev n ev ctx b))"
  shows "mode a = Train \<and> X = ctx \<and> y = reshape_col ev \<and>
         ip = Interpreter_new b n (epsilon a) (min_samples a) (confidence a) \<and>
         (\<exists>k. shape0 ev = Some k \<and> sc = sub_scalar (zeros [k, 1] dev) 4) \<and>
         it = 100 \<and> bs = 1024 \<and> vb"
  using assms
  by (auto simp: make_interpreter_def Let_def step split: sum.splits option.splits if_splits)

lemma fitted_make_interpreter:
  assumes "outcome (make_interpreter E a dev n ev ctx b) = Inr i" and "mode a = Train"
  shows "\<exists>ip X y sc it bs vb.
           Interpreter_fit ip X y sc it bs vb \<in> set (trace (make_interpreter E a dev n ev ctx b))"
  using assms
  by (auto simp: make_interpreter_def Let_def step split: sum.splits option.splits if_splits)

lemma outcome_main_Inr:
  assumes "outcome (main E a) = Inr r"
  shows "\<exists>seq dev n ev ctx b i.
           outcome (prelude E a) = Inr seq \<and>
           outcome (set_auto E a seq) = Inr (dev, n, ev, ctx) \<and>
           outcome (make_context_builder E a dev n ev ctx) = Inr b \<and>
           outcome (make_interpreter E a dev n ev ctx b) = Inr i \<and>
           outcome (analysis E a) = Inr () \<and>
           r = \<lparr> f_context_builder = b, f_interpreter = i \<rparr> \<and>
           trace (main E a) =
             trace (prelude E a) @ trace (set_auto E a seq) @
             trace (make_context_builder E a dev n ev ctx) @
             trace (make_interpreter E a dev n ev ctx b) @ trace (analysis E a)"
  using assms
  by (auto simp: main_prelude models_def outcome_bind trace_bind split: sum.splits prod.splits)


lemma replicate_3: "replicate 3 x = [x, x, x]"
  by (simp add: numeral_3_eq_3)

lemma ex_train_run:
  "main ex_env (parse_args Train [Opt_csv ''a.csv'']) =
   (Inr \<lparr> f_context_builder =
            ContextBuilder_fitted
              (ContextBuilder_moved (ContextBuilder_new 2 2 128 1 10 False False) ''cpu'')
              (Tensor ''cpu'' [3, 2] [5, 5, 5, 0, 0, 1]) (Tensor ''cpu'' [3, 1] [0, 1, 0])
              10 128 (1 / 100) (1 / 2) True,
          f_interpreter =
            Interpreter_fitted
              (Interpreter_new
                (ContextBuilder_fitted
                  (ContextBuilder_moved (ContextBuilder_new 2 2 128 1 10 False False) ''cpu'')
                  (Tensor ''cpu'' [3, 2] [5, 5, 5, 0, 0, 1]) (Tensor ''cpu'' [3, 1] [0, 1, 0])
                  10 128 (1 / 100) (1 / 2) True)
                2 (1 / 10) 5 (1 / 5))
              (Tensor ''cpu'' [3, 2] [5, 5, 5, 0, 0, 1]) (Tensor ''cpu'' [3, 1] [0, 1, 0])
              (Tensor ''cpu'' [3, 1] [- 4, - 4, - 4]) 100 1024 True \<rparr>,
    [Preprocessor_init 10 86400, Preprocessor_csv ''a.csv'', Cuda_is_available,
     Tensor_to (Tensor ''cpu'' [3] [0, 1, 0]) ''cpu'',
     Tensor_to (Tensor ''cpu'' [3, 2] [5, 5, 5, 0, 0, 1]) ''cpu'',
     ContextBuilder_init 2 2 128 1 10 False False,
     ContextBuilder_to (ContextBuilder_new 2 2 128 1 10 False False) ''cpu'',
     ContextBuilder_fit
       (ContextBuilder_moved (ContextBuilder_new 2 2 128 1 10 False False) ''cpu'')
       (Tensor ''cpu'' [3, 2] [5, 5, 5, 0, 0, 1]) (Tensor ''cpu'' [3, 1] [0, 1, 0])
       10 128 (1 / 100) (1 / 2) True,
     Interpreter_init
       (ContextBuilder_fitted
         (ContextBuilder_moved (ContextBuilder_new 2 2 128 1 10 False False) ''cpu'')
         (Tensor ''cpu'' [3, 2] [5, 5, 5, 0, 0, 1]) (Tensor ''cpu'' [3, 1] [0, 1, 0])
         10 128 (1 / 100) (1 / 2) True)
       2 (1 / 10) 5 (1 / 5),
     Interpreter_fit
       (Interpreter_new
         (ContextBuilder_fitted
           (ContextBuilder_moved (ContextBuilder_new 2 2 128 1 10 False False) ''cpu'')
           (Tensor ''cpu'' [3, 2] [5, 5, 5, 0, 0, 1]) (Tensor ''cpu'' [3, 1] [0, 1, 0])
           10 128 (1 / 100) (1 / 2) True)
         2 (1 / 10) 5 (1 / 5))
       (Tensor ''cpu'' [3, 2] [5, 5, 5, 0, 0, 1]) (Tensor ''cpu'' [3, 1] [0, 1, 0])
       (Tensor ''cpu'' [3, 1] [- 4, - 4, - 4]) 100 1024 True])"
  by (simp add: run_defs Let_def ex_defs replicate_3)

subsection \<open>Sequence mode\<close>

lemma load_files_not_exited: "outcome (load_files E a) \<noteq> Inl Exited"
  by (auto simp: load_files_def step split: sum.splits option.splits if_splits)

lemma store_sequences_not_exited: "outcome (store_sequences E a seq) \<noteq> Inl Exited"
  by (auto simp: store_sequences_def step split: sum.splits option.splits if_splits)

lemma fetch_sequences_not_exited: "outcome (fetch_sequences E a seq) \<noteq> Inl Exited"
  by (auto simp: fetch_sequences_def step split: sum.splits option.splits if_splits)

lemma sequences_not_exited: "outcome (sequences E a) \<noteq> Inl Exited"
  using load_files_not_exited [of E a] store_sequences_not_exited [of E a]
    fetch_sequences_not_exited [of E a]
  by (auto simp: sequences_def outcome_bind split: sum.splits)

lemma sequence_mode_exited:
  assumes "outcome (sequence_mode E a seq) = Inl Exited"
  shows "\<exists>d. seq = Some d \<and>
           trace (sequence_mode E a seq) =
             [Show_sequences (d_context d) (d_events d) (d_label d) (d_mapping d) (NO_EVENT E),
              Sys_exit]"
  using assms
  by (auto simp: sequence_mode_def step split: sum.splits option.splits if_splits)







lemma main_sequence_mode:
  assumes "mode a = Sequence"
  shows "\<exists>s. outcome (prelude E a) = Inl s \<and> outcome (main E a) = Inl s \<and>
             trace (main E a) = trace (prelude E a)"
proof -
  have "\<exists>s. outcome (prelude E a) = Inl s"
    using assms outcome_prelude [of E a] by (cases "outcome (prelude E a)") auto
  then show ?thesis
    by (auto simp: main_prelude outcome_bind trace_bind)
qed

lemma outcome_prelude_eq:
  "outcome (prelude E a) =
     (case outcome (sequences E a) of
        Inl s \<Rightarrow> Inl s
      | Inr seq \<Rightarrow> (case outcome (sequence_mode E a seq) of Inl s \<Rightarrow> Inl s | Inr _ \<Rightarrow> Inr seq))"
  by (auto simp: prelude_def outcome_bind split: sum.splits)

lemma trace_prelude_eq:
  "trace (prelude E a) =
     (case outcome (sequences E a) of
        Inl s \<Rightarrow> trace (sequences E a)
      | Inr seq \<Rightarrow> trace (sequences E a) @ trace (sequence_mode E a seq))"
  by (auto simp: prelude_def outcome_bind trace_bind split: sum.splits)


lemma ex_sequence_run:
  "main ex_env (parse_args Sequence [Opt_txt ''a.txt'']) =
    (Inl Exited,
     [Preprocessor_init 10 86400, Preprocessor_txt ''a.txt'',
      Show_sequences (Tensor ''cpu'' [3, 2] [5, 5, 5, 0, 0, 1]) (Tensor ''cpu'' [3] [0, 1, 0])
        None [(0, ''login''), (1, ''scan'')] (- 1337),
      Sys_exit])"
  by (simp add: run_defs Let_def ex_defs)




subsection \<open>The constructors\<close>

lemma init_in_make_context_builder:
  assumes "ContextBuilder_init i ou h nl ml bd ls
             \<in> set (trace (make_context_builder E a dev n ev ctx))"
  shows "i = n \<and> ou = n \<and> h = hidden a \<and> nl = 1 \<and> ml = length_arg a \<and> \<not> bd \<and> \<not> ls"
  using assms
  by (auto simp: make_context_builder_def Let_def step split: sum.splits option.splits if_splits)

lemma init_in_make_interpreter:
  assumes "Interpreter_init b' f e ms th \<in> set (trace (make_interpreter E a dev n ev ctx b))"
  shows "b' = b \<and> f = n \<and> e = epsilon a \<and> ms = min_samples a \<and> th = confidence a"
  using assms
  by (auto simp: make_interpreter_def Let_def step split: sum.splits option.splits if_splits)

subsection \<open>Saving and loading\<close>

lemma emits_bind:
  assumes "emits P m l1" and "\<And>x. outcome m = Inr x \<Longrightarrow> emits P (f x) l2"
  shows "emits P (bind m f) (l1 @ l2)"
  using assms
  by (cases "outcome m") (auto simp: emits_def trace_bind outcome_bind)

lemma emits_none:
  assumes "\<And>c. c \<in> set (trace m) \<Longrightarrow> \<not> P c"
  shows "emits P m []"
proof -
  from assms have "filter P (trace m) = []" by (simp add: filter_empty_conv)
  then show ?thesis by (simp add: emits_def)
qed

lemma emits_load_files: "emits persists (load_files E a) []"
  by (rule emits_none) (auto dest: stage_load_files simp: load_files_def step
        split: sum.splits option.splits if_splits)

lemma emits_store_sequences:
  "emits persists (store_sequences E a (Some d))
     (if truthy (save_sequences a) then [Torch_save d (path (save_sequences a))] else [])"
  by (auto simp: emits_def store_sequences_def step split: sum.splits option.splits if_splits)

lemma emits_store_sequences_None:
  "emits persists (store_sequences E a None)
     (if truthy (save_sequences a) then l else [])"
  by (auto simp: emits_def store_sequences_def step split: sum.splits option.splits if_splits)

lemma emits_fetch_sequences:
  "emits persists (fetch_sequences E a seq)
     (if truthy (load_sequences a) then [Torch_load (path (load_sequences a))] else [])"
  by (auto simp: emits_def fetch_sequences_def step split: sum.splits option.splits if_splits)

lemma emits_sequence_mode: "emits persists (sequence_mode E a seq) []"
  by (rule emits_none)
     (auto simp: sequence_mode_def step split: sum.splits option.splits if_splits)

lemma emits_set_auto: "emits persists (set_auto E a seq) []"
  by (rule emits_none)
     (auto simp: set_auto_def step split: sum.splits option.splits if_splits)

lemma emits_analysis: "emits persists (analysis E a) []"
  by (rule emits_none)
     (auto simp: analysis_def step split: sum.splits option.splits if_splits)

lemma emits_bind_nil:
  assumes "emits P m []" and "\<And>x. outcome m = Inr x \<Longrightarrow> emits P (f x) l"
  shows "emits P (bind m f) l"
  using emits_bind [of P m "[]" f l] assms by simp

lemma emits_do_call_no: "\<not> P c \<Longrightarrow> emits P (do_call E c) []"
  by (simp add: emits_def)

lemma emits_ret: "emits P (ret x) []"
  by (simp add: emits_def)

lemma emits_save_load_builder:
  "emits persists
     (bind (if truthy (save_builder a) then
              do_call E (ContextBuilder_save b (path (save_builder a)))
            else ret ()) (\<lambda>_.
        if truthy (load_builder a) then
          bind (do_call E (ContextBuilder_load (path (load_builder a)) dev)) (\<lambda>_.
            ret (ContextBuilder_loaded (path (load_builder a)) dev))
        else ret b))
     ((if truthy (save_builder a) then [ContextBuilder_save b (path (save_builder a))] else []) @
      (if truthy (load_builder a) then [ContextBuilder_load (path (load_builder a)) dev] else []))"
  by (auto simp: emits_def step split: sum.splits option.splits)

lemma emits_fit_builder:
  "emits persists
     (if mode a = Train then
        bind (do_call E (ContextBuilder_fit b X y ep ba lr tr v)) (\<lambda>_.
          ret (ContextBuilder_fitted b X y ep ba lr tr v))
      else ret b) []"
  by (auto simp: emits_def step split: sum.splits option.splits)

lemma outcome_fit_builder:
  "outcome (if mode a = Train then
        bind (do_call E (ContextBuilder_fit b X y ep ba lr tr v)) (\<lambda>_.
          ret (ContextBuilder_fitted b X y ep ba lr tr v))
      else ret b) = Inr x \<Longrightarrow>
   x = (if mode a = Train then ContextBuilder_fitted b X y ep ba lr tr v else b)"
  by (auto simp: step split: sum.splits option.splits if_splits)

lemma emits_make_context_builder:
  "emits persists (make_context_builder E a dev n ev ctx)
     ((if truthy (save_builder a) then
         [ContextBuilder_save
            (if mode a = Train
             then ContextBuilder_fitted
                    (ContextBuilder_moved
                       (ContextBuilder_new n n (hidden a) 1 (length_arg a) False False) dev)
                    ctx (reshape_col ev) (epochs a) (batch a) (1 / 100) (1 / 2) True
             else ContextBuilder_moved
                    (ContextBuilder_new n n (hidden a) 1 (length_arg a) False False) dev)
            (path (save_builder a))]
       else []) @
      (if truthy (load_builder a) then [ContextBuilder_load (path (load_builder a)) dev]
       else []))"
  unfolding make_context_builder_def Let_def
  apply (rule emits_bind_nil)
   apply (simp add: emits_do_call_no)
  apply (rule emits_bind_nil)
   apply (simp add: emits_do_call_no)
  apply (rule emits_bind_nil)
   apply (rule emits_fit_builder)
  apply (drule outcome_fit_builder)
  apply (simp only:)
  apply (rule emits_save_load_builder)
  done

lemma emits_save_load_interpreter:
  "emits persists
     (bind (if truthy (save_interpreter a) then
              do_call E (Interpreter_save i (path (save_interpreter a)))
            else ret ()) (\<lambda>_.
        if truthy (load_interpreter a) then
          bind (do_call E (Interpreter_load (path (load_interpreter a)) b)) (\<lambda>_.
            ret (Interpreter_loaded (path (load_interpreter a)) b))
        else ret i))
     ((if truthy (save_interpreter a) then [Interpreter_save i (path (save_interpreter a))]
       else []) @
      (if truthy (load_interpreter a) then [Interpreter_load (path (load_interpreter a)) b]
       else []))"
  by (auto simp: emits_def step split: sum.splits option.splits)

lemma emits_fit_interpreter:
  "emits persists
     (if mode a = Train then
        (case shape0 ev of
           None \<Rightarrow> raise IndexError
         | Some k \<Rightarrow>
             bind (do_call E (Interpreter_fit i ctx y (sc k) it bs v)) (\<lambda>_.
               ret (Interpreter_fitted i ctx y (sc k) it bs v)))
      else ret i) []"
  by (auto simp: emits_def step split: sum.splits option.splits)

lemma emits_make_interpreter:
  "\<exists>i. emits persists (make_interpreter E a dev n ev ctx b)
     ((if truthy (save_interpreter a) then [Interpreter_save i (path (save_interpreter a))]
       else []) @
      (if truthy (load_interpreter a) then [Interpreter_load (path (load_interpreter a)) b]
       else []))"
proof -
  let ?i0 = "Interpreter_new b n (epsilon a) (min_samples a) (confidence a)"
  let ?fit = "if mode a = Train then
        (case shape0 ev of
           None \<Rightarrow> raise IndexError
         | Some k \<Rightarrow>
             bind (do_call E (Interpreter_fit ?i0 ctx (reshape_col ev)
                                (sub_scalar (zeros [k, 1] dev) 4) 100 1024 True)) (\<lambda>_.
               ret (Interpreter_fitted ?i0 ctx (reshape_col ev)
                      (sub_scalar (zeros [k, 1] dev) 4) 100 1024 True)))
      else ret ?i0"
  let ?L = "\<lambda>i. (if truthy (save_interpreter a) then [Interpreter_save i (path (save_interpreter a))]
       else []) @
      (if truthy (load_interpreter a) then [Interpreter_load (path (load_interpreter a)) b]
       else [])"
  show ?thesis
  proof (cases "outcome ?fit")
    case (Inl s)
    have "emits persists (make_interpreter E a dev n ev ctx b) (?L ?i0)"
      unfolding make_interpreter_def Let_def
      apply (rule emits_bind_nil)
       apply (simp add: emits_do_call_no)
      apply (rule emits_bind_nil)
       apply (rule emits_fit_interpreter)
      apply (simp add: Inl)
      done
    then show ?thesis by blast
  next
    case (Inr x)
    have "emits persists (make_interpreter E a dev n ev ctx b) (?L x)"
      unfolding make_interpreter_def Let_def
      apply (rule emits_bind_nil)
       apply (simp add: emits_do_call_no)
      apply (rule emits_bind_nil)
       apply (rule emits_fit_interpreter)
      apply (simp only: Inr sum.inject)
      apply (erule subst)
      apply (rule emits_save_load_interpreter)
      done
    then show ?thesis by blast
  qed
qed

lemma emits_bind_nil2:
  assumes "emits P m l" and "\<And>x. outcome m = Inr x \<Longrightarrow> emits P (f x) []"
  shows "emits P (bind m f) l"
  using emits_bind [of P m l f "[]"] assms by simp

lemma emits_sequences:
  "\<exists>d. emits persists (sequences E a)
     ((if truthy (save_sequences a) then [Torch_save d (path (save_sequences a))] else []) @
      (if truthy (load_sequences a) then [Torch_load (path (load_sequences a))] else []))"
proof -
  let ?S = "\<lambda>d. if truthy (save_sequences a) then [Torch_save d (path (save_sequences a))] else []"
  let ?L = "if truthy (load_sequences a) then [Torch_load (path (load_sequences a))] else []"
  have store: "\<exists>d. emits persists (store_sequences E a seq0) (?S d)" for seq0
  proof (cases seq0)
    case None
    show ?thesis unfolding None
      using emits_store_sequences_None [of E a "[Torch_save undefined (path (save_sequences a))]"]
      by blast
  next
    case (Some d)
    show ?thesis unfolding Some using emits_store_sequences [of E a d] by blast
  qed
  show ?thesis
  proof (cases "outcome (load_files E a)")
    case (Inl s)
    have "emits persists (sequences E a) (?S undefined @ ?L)"
      unfolding sequences_def
      by (rule emits_bind_nil [OF emits_load_files]) (simp add: Inl)
    then show ?thesis by blast
  next
    case (Inr seq0)
    from store [of seq0] obtain d where d: "emits persists (store_sequences E a seq0) (?S d)"
      by blast
    have "emits persists (sequences E a) (?S d @ ?L)"
      unfolding sequences_def
      apply (rule emits_bind_nil [OF emits_load_files])
      apply (simp only: Inr sum.inject)
      apply (erule subst)
      apply (rule emits_bind [OF d])
      apply (rule emits_fetch_sequences)
      done
    then show ?thesis by blast
  qed
qed

lemma emits_prelude:
  "\<exists>d. emits persists (prelude E a)
     ((if truthy (save_sequences a) then [Torch_save d (path (save_sequences a))] else []) @
      (if truthy (load_sequences a) then [Torch_load (path (load_sequences a))] else []))"
proof -
  from emits_sequences [of E a] obtain d where
    d: "emits persists (sequences E a)
     ((if truthy (save_sequences a) then [Torch_save d (path (save_sequences a))] else []) @
      (if truthy (load_sequences a) then [Torch_load (path (load_sequences a))] else []))"
    by blast
  have "emits persists (prelude E a)
     ((if truthy (save_sequences a) then [Torch_save d (path (save_sequences a))] else []) @
      (if truthy (load_sequences a) then [Torch_load (path (load_sequences a))] else []))"
    unfolding prelude_def
    apply (rule emits_bind_nil2 [OF d])
    apply (rule emits_bind_nil [OF emits_sequence_mode])
    apply (rule emits_ret)
    done
  then show ?thesis by blast
qed

lemma emits_after_builder:
  "\<exists>i. emits persists
     (bind (make_interpreter E a dev n ev ctx b) (\<lambda>i.
      bind (analysis E a) (\<lambda>_. ret \<lparr> f_context_builder = b, f_interpreter = i \<rparr>)))
     ((if truthy (save_interpreter a) then [Interpreter_save i (path (save_interpreter a))]
       else []) @
      (if truthy (load_interpreter a) then [Interpreter_load (path (load_interpreter a)) b]
       else []))"
proof -
  from emits_make_interpreter [of E a dev n ev ctx b] obtain i where
    i: "emits persists (make_interpreter E a dev n ev ctx b)
     ((if truthy (save_interpreter a) then [Interpreter_save i (path (save_interpreter a))]
       else []) @
      (if truthy (load_interpreter a) then [Interpreter_load (path (load_interpreter a)) b]
       else []))"
    by blast
  have "emits persists
     (bind (make_interpreter E a dev n ev ctx b) (\<lambda>i.
      bind (analysis E a) (\<lambda>_. ret \<lparr> f_context_builder = b, f_interpreter = i \<rparr>)))
     ((if truthy (save_interpreter a) then [Interpreter_save i (path (save_interpreter a))]
       else []) @
      (if truthy (load_interpreter a) then [Interpreter_load (path (load_interpreter a)) b]
       else []))"
    apply (rule emits_bind_nil2 [OF i])
    apply (rule emits_bind_nil [OF emits_analysis])
    apply (rule emits_ret)
    done
  then show ?thesis by blast
qed

lemma emits_after_setup:
  "\<exists>bs i bl. emits persists
     (bind (make_context_builder E a dev n ev ctx) (\<lambda>b.
      bind (make_interpreter E a dev n ev ctx b) (\<lambda>i.
      bind (analysis E a) (\<lambda>_. ret \<lparr> f_context_builder = b, f_interpreter = i \<rparr>))))
     (((if truthy (save_builder a) then [ContextBuilder_save bs (path (save_builder a))] else []) @
       (if truthy (load_builder a) then [ContextBuilder_load (path (load_builder a)) dev]
        else [])) @
      ((if truthy (save_interpreter a) then [Interpreter_save i (path (save_interpreter a))]
        else []) @
       (if truthy (load_interpreter a) then [Interpreter_load (path (load_interpreter a)) bl]
        else [])))"
proof (cases "outcome (make_context_builder E a dev n ev ctx)")
  case (Inl s)
  show ?thesis
    apply (intro exI)
    apply (rule emits_bind [OF emits_make_context_builder])
    apply (simp add: Inl)
    done
next
  case (Inr b)
  from emits_after_builder [of E a dev n ev ctx b] obtain i where
    i: "emits persists
     (bind (make_interpreter E a dev n ev ctx b) (\<lambda>i.
      bind (analysis E a) (\<lambda>_. ret \<lparr> f_context_builder = b, f_interpreter = i \<rparr>)))
     ((if truthy (save_interpreter a) then [Interpreter_save i (path (save_interpreter a))]
       else []) @
      (if truthy (load_interpreter a) then [Interpreter_load (path (load_interpreter a)) b]
       else []))"
    by blast
  show ?thesis
    apply (intro exI)
    apply (rule emits_bind [OF emits_make_context_builder])
    apply (simp only: Inr sum.inject)
    apply (erule subst)
    apply (rule i)
    done
qed

lemma emits_models:
  "\<exists>bs dev i bl. emits persists (models E a seq)
     (((if truthy (save_builder a) then [ContextBuilder_save bs (path (save_builder a))] else []) @
       (if truthy (load_builder a) then [ContextBuilder_load (path (load_builder a)) dev]
        else [])) @
      ((if truthy (save_interpreter a) then [Interpreter_save i (path (save_interpreter a))]
        else []) @
       (if truthy (load_interpreter a) then [Interpreter_load (path (load_interpreter a)) bl]
        else [])))"
proof (cases "outcome (set_auto E a seq)")
  case (Inl s)
  show ?thesis
    unfolding models_def
    apply (intro exI)
    apply (rule emits_bind_nil [OF emits_set_auto])
    apply (simp add: Inl)
    done
next
  case (Inr x)
  obtain dev n ev ctx where x: "x = (dev, n, ev, ctx)" by (cases x) auto
  from emits_after_setup [of E a dev n ev ctx] obtain bs i bl where
    e: "emits persists
     (bind (make_context_builder E a dev n ev ctx) (\<lambda>b.
      bind (make_interpreter E a dev n ev ctx b) (\<lambda>i.
      bind (analysis E a) (\<lambda>_. ret \<lparr> f_context_builder = b, f_interpreter = i \<rparr>))))
     (((if truthy (save_builder a) then [ContextBuilder_save bs (path (save_builder a))] else []) @
       (if truthy (load_builder a) then [ContextBuilder_load (path (load_builder a)) dev]
        else [])) @
      ((if truthy (save_interpreter a) then [Interpreter_save i (path (save_interpreter a))]
        else []) @
       (if truthy (load_interpreter a) then [Interpreter_load (path (load_interpreter a)) bl]
        else [])))"
    by blast
  show ?thesis
    unfolding models_def
    apply (intro exI)
    apply (rule emits_bind_nil [OF emits_set_auto])
    apply (simp only: Inr x sum.inject)
    apply (erule subst)
    apply (simp only: prod.case)
    apply (rule e)
    done
qed

lemma emits_main:
  "\<exists>d bs dev i bl. emits persists (main E a)
     (((if truthy (save_sequences a) then [Torch_save d (path (save_sequences a))] else []) @
       (if truthy (load_sequences a) then [Torch_load (path (load_sequences a))] else [])) @
      ((if truthy (save_builder a) then [ContextBuilder_save bs (path (save_builder a))] else []) @
       (if truthy (load_builder a) then [ContextBuilder_load (path (load_builder a)) dev]
        else [])) @
      ((if truthy (save_interpreter a) then [Interpreter_save i (path (save_interpreter a))]
        else []) @
       (if truthy (load_interpreter a) then [Interpreter_load (path (load_interpreter a)) bl]
        else [])))"
proof -
  from emits_prelude [of E a] obtain d where
    d: "emits persists (prelude E a)
     ((if truthy (save_sequences a) then [Torch_save d (path (save_sequences a))] else []) @
      (if truthy (load_sequences a) then [Torch_load (path (load_sequences a))] else []))"
    by blast
  show ?thesis
  proof (cases "outcome (prelude E a)")
    case (Inl s)
    show ?thesis
      unfolding main_prelude
      apply (intro exI)
      apply (rule emits_bind [OF d])
      apply (simp add: Inl)
      done
  next
    case (Inr seq)
    from emits_models [of E a seq] obtain bs dev i bl where
      m: "emits persists (models E a seq)
     (((if truthy (save_builder a) then [ContextBuilder_save bs (path (save_builder a))] else []) @
       (if truthy (load_builder a) then [ContextBuilder_load (path (load_builder a)) dev]
        else [])) @
      ((if truthy (save_interpreter a) then [Interpreter_save i (path (save_interpreter a))]
        else []) @
       (if truthy (load_interpreter a) then [Interpreter_load (path (load_interpreter a)) bl]
        else [])))"
      by blast
    show ?thesis
      unfolding main_prelude
      apply (intro exI)
      apply (rule emits_bind [OF d])
      apply (simp only: Inr sum.inject)
      apply (erule subst)
      apply (rule m)
      done
  qed
qed

lemma save_in_store_sequences:
  assumes "Torch_save d p \<in> set (trace (store_sequences E a seq0))"
  shows "seq0 = Some d \<and> p = path (save_sequences a)"
  using assms
  by (auto simp: store_sequences_def step split: sum.splits option.splits if_splits)

lemma no_save_in_load_files: "Torch_save d p \<notin> set (trace (load_files E a))"
  by (auto simp: load_files_def step split: sum.splits option.splits if_splits)

lemma no_save_in_fetch_sequences: "Torch_save d p \<notin> set (trace (fetch_sequences E a seq))"
  by (auto simp: fetch_sequences_def step split: sum.splits option.splits if_splits)

lemma no_save_in_sequence_mode: "Torch_save d p \<notin> set (trace (sequence_mode E a seq))"
  by (auto simp: sequence_mode_def step split: sum.splits option.splits if_splits)

lemma save_in_sequences:
  assumes "Torch_save d p \<in> set (trace (sequences E a))"
  shows "outcome (load_files E a) = Inr (Some d) \<and> p = path (save_sequences a)"
  using assms no_save_in_load_files [of d p E a] no_save_in_fetch_sequences [of d p E a]
  by (auto simp: sequences_def trace_bind split: sum.splits dest: save_in_store_sequences)

lemma torch_save_fresh:
  assumes "Torch_save d p \<in> set (trace (main E a))"
  shows "outcome (load_files E a) = Inr (Some d) \<and> p = path (save_sequences a)"
proof -
  let ?c = "Torch_save d p"
  from in_main_cases [OF assms] have "?c \<in> set (trace (prelude E a))"
  proof
    assume "\<exists>seq. outcome (prelude E a) = Inr seq \<and> ?c \<in> set (trace (models E a seq))"
    then obtain seq where "?c \<in> set (trace (models E a seq))" by blast
    from in_models_cases [OF this] have False
      by (auto dest: stage_set_auto stage_make_context_builder stage_make_interpreter
            stage_analysis)
    then show ?thesis ..
  qed
  then have "?c \<in> set (trace (sequences E a))"
    using no_save_in_sequence_mode [of d p E a]
    by (auto simp: trace_prelude_eq split: sum.splits)
  then show ?thesis by (rule save_in_sequences)
qed

lemma replicate_2: "replicate 2 x = [x, x]"
  by (simp add: numeral_2_eq_2)

subsection \<open>Defaults\<close>

lemma parsed_defaults:
  "length_arg (default_args m) = 10 \<and> timeout (default_args m) = 86400 \<and>
   hidden (default_args m) = 128 \<and> delta (default_args m) = 1 / 10 \<and>
   confidence (default_args m) = 2 / 10 \<and> epsilon (default_args m) = 1 / 10 \<and>
   min_samples (default_args m) = 5 \<and> epochs (default_args m) = 10 \<and>
   batch (default_args m) = 128"
  by (simp add: default_args_def)

lemma delta_unused_sections:
  "load_files E (a\<lparr>delta := x\<rparr>) = load_files E a"
  "store_sequences E (a\<lparr>delta := x\<rparr>) = store_sequences E a"
  "fetch_sequences E (a\<lparr>delta := x\<rparr>) = fetch_sequences E a"
  "sequence_mode E (a\<lparr>delta := x\<rparr>) = sequence_mode E a"
  "set_auto E (a\<lparr>delta := x\<rparr>) = set_auto E a"
  "make_context_builder E (a\<lparr>delta := x\<rparr>) = make_context_builder E a"
  "make_interpreter E (a\<lparr>delta := x\<rparr>) = make_interpreter E a"
  "analysis E (a\<lparr>delta := x\<rparr>) = analysis E a"
  by (simp_all add: load_files_def store_sequences_def fetch_sequences_def sequence_mode_def
        set_auto_def make_context_builder_def make_interpreter_def analysis_def fun_eq_iff
        cong: if_cong split del: if_split)

lemma delta_unused: "main E (a\<lparr>delta := x\<rparr>) = main E a"
  by (simp add: main_def models_def delta_unused_sections)

subsection \<open>Automatic mode\<close>

lemma in_analysis:
  assumes "c \<in> set (trace (analysis E a))"
  shows "mode a = Automatic \<and> c = Print ''SEMI-AUTOMATIC mode''"
  using assms
  by (auto simp: analysis_def step split: sum.splits option.splits if_splits)

lemma trace_analysis_automatic:
  "mode a = Automatic \<Longrightarrow> trace (analysis E a) = [Print ''SEMI-AUTOMATIC mode'']"
  by (simp add: analysis_def step)

lemma analysis_stage_main:
  assumes "c \<in> set (trace (main E a))" and "stage_of c = Analysis"
  shows "c \<in> set (trace (analysis E a))"
proof -
  from in_main_cases [OF assms(1)] assms(2) obtain seq
    where "c \<in> set (trace (models E a seq))"
    by (auto dest: stage_prelude)
  from in_models_cases [OF this] assms(2) show ?thesis
    by (auto dest: stage_set_auto stage_make_context_builder stage_make_interpreter)
qed

lemma builder_fit_in_make_context_builder:
  assumes "ContextBuilder_fit b X y ep ba lr tr v
             \<in> set (trace (make_context_builder E a dev n ev ctx))"
  shows "mode a = Train"
  using assms
  by (auto simp: make_context_builder_def Let_def step split: sum.splits option.splits if_splits)

subsection \<open>The values in use\<close>

lemma set_auto_in_use:
  assumes "outcome (set_auto E a seq) = Inr (dev, n, ev, ctx)"
  shows "\<exists>d. seq = Some d \<and> ev = tensor_to (d_events d) dev \<and>
             ctx = tensor_to (d_context d) dev \<and> events_in_use E a d = Some n \<and>
             dev = device_in_use E a"
  using outcome_set_auto [OF assms]
  by (auto simp: events_in_use_def device_in_use_def split: if_splits)

lemma init_called_make_context_builder:
  "ContextBuilder_init n n (hidden a) 1 (length_arg a) False False
     \<in> set (trace (make_context_builder E a dev n ev ctx))"
  by (simp add: make_context_builder_def trace_bind split: sum.splits)

lemma init_called_make_interpreter:
  "Interpreter_init b n (epsilon a) (min_samples a) (confidence a)
     \<in> set (trace (make_interpreter E a dev n ev ctx b))"
  by (simp add: make_interpreter_def trace_bind split: sum.splits)

lemma ex_train7_run:
  "main ex_env (parse_args Train [Opt_csv ''a.csv'', Opt_events ''7'']) =
   (Inr \<lparr> f_context_builder =
            ContextBuilder_fitted
              (ContextBuilder_moved (ContextBuilder_new 7 7 128 1 10 False False) ''cpu'')
              (Tensor ''cpu'' [3, 2] [5, 5, 5, 0, 0, 1]) (Tensor ''cpu'' [3, 1] [0, 1, 0])
              10 128 (1 / 100) (1 / 2) True,
          f_interpreter =
            Interpreter_fitted
              (Interpreter_new
                (ContextBuilder_fitted
                  (ContextBuilder_moved (ContextBuilder_new 7 7 128 1 10 False False) ''cpu'')
                  (Tensor ''cpu'' [3, 2] [5, 5, 5, 0, 0, 1]) (Tensor ''cpu'' [3, 1] [0, 1, 0])
                  10 128 (1 / 100) (1 / 2) True)
                7 (1 / 10) 5 (1 / 5))
              (Tensor ''cpu'' [3, 2] [5, 5, 5, 0, 0, 1]) (Tensor ''cpu'' [3, 1] [0, 1, 0])
              (Tensor ''cpu'' [3, 1] [- 4, - 4, - 4]) 100 1024 True \<rparr>,
    [Preprocessor_init 10 86400, Preprocessor_csv ''a.csv'', Cuda_is_available,
     Tensor_to (Tensor ''cpu'' [3] [0, 1, 0]) ''cpu'',
     Tensor_to (Tensor ''cpu'' [3, 2] [5, 5, 5, 0, 0, 1]) ''cpu'',
     ContextBuilder_init 7 7 128 1 10 False False,
     ContextBuilder_to (ContextBuilder_new 7 7 128 1 10 False False) ''cpu'',
     ContextBuilder_fit
       (ContextBuilder_moved (ContextBuilder_new 7 7 128 1 10 False False) ''cpu'')
       (Tensor ''cpu'' [3, 2] [5, 5, 5, 0, 0, 1]) (Tensor ''cpu'' [3, 1] [0, 1, 0])
       10 128 (1 / 100) (1 / 2) True,
     Interpreter_init
       (ContextBuilder_fitted
         (ContextBuilder_moved (ContextBuilder_new 7 7 128 1 10 False False) ''cpu'')
         (Tensor ''cpu'' [3, 2] [5, 5, 5, 0, 0, 1]) (Tensor ''cpu'' [3, 1] [0, 1, 0])
         10 128 (1 / 100) (1 / 2) True)
       7 (1 / 10) 5 (1 / 5),
     Interpreter_fit
       (Interpreter_new
         (ContextBuilder_fitted
           (ContextBuilder_moved (ContextBuilder_new 7 7 128 1 10 False False) ''cpu'')
           (Tensor ''cpu'' [3, 2] [5, 5, 5, 0, 0, 1]) (Tensor ''cpu'' [3, 1] [0, 1, 0])
           10 128 (1 / 100) (1 / 2) True)
         7 (1 / 10) 5 (1 / 5))
       (Tensor ''cpu'' [3, 2] [5, 5, 5, 0, 0, 1]) (Tensor ''cpu'' [3, 1] [0, 1, 0])
       (Tensor ''cpu'' [3, 1] [- 4, - 4, - 4]) 100 1024 True])"
  by (simp add: run_defs Let_def ex_defs replicate_3)

lemma saved_builder:
  assumes "ContextBuilder_save b p \<in> set (trace (make_context_builder E a dev n ev ctx))"
    and "ev = tensor_to (d_events d) dev" and "ctx = tensor_to (d_context d) dev"
  shows "p = path (save_builder a) \<and> b = computed_builder a dev n d"
  using assms
  by (auto simp: computed_builder_def make_context_builder_def Let_def step
        split: sum.splits option.splits if_splits)

lemma returned_builder:
  assumes "outcome (make_context_builder E a dev n ev ctx) = Inr b"
    and "ev = tensor_to (d_events d) dev" and "ctx = tensor_to (d_context d) dev"
  shows "b = builder_in_use a dev n d"
  using assms
  by (auto simp: builder_in_use_def computed_builder_def make_context_builder_def Let_def step
        split: sum.splits option.splits if_splits)

lemma persisted_builder:
  assumes "outcome (make_context_builder E a dev n ev ctx) = Inr b"
    and "ev = tensor_to (d_events d) dev" and "ctx = tensor_to (d_context d) dev"
  shows "filter persists (trace (make_context_builder E a dev n ev ctx)) =
     (if truthy (save_builder a)
      then [ContextBuilder_save (computed_builder a dev n d) (path (save_builder a))] else []) @
     (if truthy (load_builder a) then [ContextBuilder_load (path (load_builder a)) dev] else [])"
  using emits_make_context_builder [of E a dev n ev ctx] assms
  by (simp add: emits_def computed_builder_def Let_def)

lemma shape0_tensor_to [simp]: "shape0 (tensor_to t dev) = shape0 t"
  by (simp add: shape0_def tensor_to_def)

lemma saved_interpreter:
  assumes "Interpreter_save i p \<in> set (trace (make_interpreter E a dev n ev ctx b))"
    and "ev = tensor_to (d_events d) dev" and "ctx = tensor_to (d_context d) dev"
    and "b = builder_in_use a dev n d"
  shows "p = path (save_interpreter a) \<and>
         (\<exists>k. (mode a = Train \<longrightarrow> shape0 (d_events d) = Some k) \<and>
              i = computed_interpreter a dev n d k)"
  using assms
  by (auto simp: computed_interpreter_def make_interpreter_def Let_def step
        split: sum.splits option.splits if_splits)

lemma returned_interpreter:
  assumes "outcome (make_interpreter E a dev n ev ctx b) = Inr i"
    and "ev = tensor_to (d_events d) dev" and "ctx = tensor_to (d_context d) dev"
    and "b = builder_in_use a dev n d"
  shows "\<exists>k. (mode a = Train \<longrightarrow> shape0 (d_events d) = Some k) \<and>
             i = interpreter_in_use a dev n d k \<and>
             filter persists (trace (make_interpreter E a dev n ev ctx b)) =
               (if truthy (save_interpreter a)
                then [Interpreter_save (computed_interpreter a dev n d k)
                        (path (save_interpreter a))] else []) @
               (if truthy (load_interpreter a)
                then [Interpreter_load (path (load_interpreter a)) (builder_in_use a dev n d)]
                else [])"
  using assms
  by (auto simp: interpreter_in_use_def computed_interpreter_def make_interpreter_def Let_def step
        split: sum.splits option.splits if_splits)

lemma save_in_prelude:
  assumes "Torch_save d p \<in> set (trace (prelude E a))"
  shows "outcome (load_files E a) = Inr (Some d) \<and> p = path (save_sequences a)"
proof -
  from assms have "Torch_save d p \<in> set (trace (sequences E a))"
    using no_save_in_sequence_mode [of d p E a]
    by (auto simp: trace_prelude_eq split: sum.splits)
  then show ?thesis by (rule save_in_sequences)
qed

lemma persisted_prelude:
  assumes "outcome (prelude E a) = Inr seq"
  shows "\<exists>d0. (truthy (save_sequences a) \<longrightarrow> outcome (load_files E a) = Inr (Some d0)) \<and>
           filter persists (trace (prelude E a)) =
             (if truthy (save_sequences a) then [Torch_save d0 (path (save_sequences a))] else []) @
             (if truthy (load_sequences a) then [Torch_load (path (load_sequences a))] else [])"
proof -
  from emits_prelude [of E a] assms obtain d0 :: seqdata where
    f: "filter persists (trace (prelude E a)) =
             (if truthy (save_sequences a) then [Torch_save d0 (path (save_sequences a))] else []) @
             (if truthy (load_sequences a) then [Torch_load (path (load_sequences a))] else [])"
    by (auto simp: emits_def)
  have "outcome (load_files E a) = Inr (Some d0)" if s: "truthy (save_sequences a)"
  proof -
    from f s have "Torch_save d0 (path (save_sequences a))
                     \<in> set (filter persists (trace (prelude E a)))"
      by simp
    then have "Torch_save d0 (path (save_sequences a)) \<in> set (trace (prelude E a))"
      by simp
    from save_in_prelude [OF this] show ?thesis by simp
  qed
  with f show ?thesis by blast
qed

lemma persisted_set_auto: "filter persists (trace (set_auto E a seq)) = []"
  using emits_set_auto [of E a seq] by (simp add: emits_def)

lemma persisted_analysis: "filter persists (trace (analysis E a)) = []"
  using emits_analysis [of E a] by (simp add: emits_def)

lemma finished_run:
  assumes "outcome (main E a) = Inr r"
  shows "\<exists>d0 d n k.
           (truthy (save_sequences a) \<longrightarrow> outcome (load_files E a) = Inr (Some d0)) \<and>
           outcome (sequences E a) = Inr (Some d) \<and> events_in_use E a d = Some n \<and>
           (mode a = Train \<longrightarrow> shape0 (d_events d) = Some k) \<and>
           filter persists (trace (main E a)) =
             (if truthy (save_sequences a) then [Torch_save d0 (path (save_sequences a))] else []) @
             (if truthy (load_sequences a) then [Torch_load (path (load_sequences a))] else []) @
             (if truthy (save_builder a)
              then [ContextBuilder_save (computed_builder a (device_in_use E a) n d)
                      (path (save_builder a))] else []) @
             (if truthy (load_builder a)
              then [ContextBuilder_load (path (load_builder a)) (device_in_use E a)] else []) @
             (if truthy (save_interpreter a)
              then [Interpreter_save (computed_interpreter a (device_in_use E a) n d k)
                      (path (save_interpreter a))] else []) @
             (if truthy (load_interpreter a)
              then [Interpreter_load (path (load_interpreter a))
                      (builder_in_use a (device_in_use E a) n d)] else []) \<and>
           r = \<lparr> f_context_builder = builder_in_use a (device_in_use E a) n d,
                 f_interpreter = interpreter_in_use a (device_in_use E a) n d k \<rparr>"
proof -
  from outcome_main_Inr [OF assms] obtain seq dev n ev ctx b i
    where p: "outcome (prelude E a) = Inr seq"
      and s: "outcome (set_auto E a seq) = Inr (dev, n, ev, ctx)"
      and b: "outcome (make_context_builder E a dev n ev ctx) = Inr b"
      and i: "outcome (make_interpreter E a dev n ev ctx b) = Inr i"
      and r: "r = \<lparr> f_context_builder = b, f_interpreter = i \<rparr>"
      and t: "trace (main E a) =
             trace (prelude E a) @ trace (set_auto E a seq) @
             trace (make_context_builder E a dev n ev ctx) @
             trace (make_interpreter E a dev n ev ctx b) @ trace (analysis E a)"
    by blast
  from set_auto_in_use [OF s] obtain d :: seqdata
    where d: "seq = Some d" and ev: "ev = tensor_to (d_events d) dev"
      and ctx: "ctx = tensor_to (d_context d) dev" and dev: "dev = device_in_use E a"
      and n: "events_in_use E a d = Some n"
    by blast
  from outcome_prelude [OF p] d have q: "outcome (sequences E a) = Inr (Some d)" by simp
  from persisted_prelude [OF p] obtain d0 :: seqdata
    where d0: "truthy (save_sequences a) \<longrightarrow> outcome (load_files E a) = Inr (Some d0)"
      and fp: "filter persists (trace (prelude E a)) =
             (if truthy (save_sequences a) then [Torch_save d0 (path (save_sequences a))] else []) @
             (if truthy (load_sequences a) then [Torch_load (path (load_sequences a))] else [])"
    by blast
  note bu = returned_builder [OF b ev ctx]
  note fb = persisted_builder [OF b ev ctx]
  from returned_interpreter [OF i ev ctx bu] obtain k
    where k: "mode a = Train \<longrightarrow> shape0 (d_events d) = Some k"
      and iu: "i = interpreter_in_use a dev n d k"
      and fi: "filter persists (trace (make_interpreter E a dev n ev ctx b)) =
               (if truthy (save_interpreter a)
                then [Interpreter_save (computed_interpreter a dev n d k)
                        (path (save_interpreter a))] else []) @
               (if truthy (load_interpreter a)
                then [Interpreter_load (path (load_interpreter a)) (builder_in_use a dev n d)]
                else [])"
    by blast
  have "filter persists (trace (main E a)) =
          filter persists (trace (prelude E a)) @
          filter persists (trace (make_context_builder E a dev n ev ctx)) @
          filter persists (trace (make_interpreter E a dev n ev ctx b))"
    by (simp add: t persisted_set_auto persisted_analysis)
  then have "filter persists (trace (main E a)) =
             (if truthy (save_sequences a) then [Torch_save d0 (path (save_sequences a))] else []) @
             (if truthy (load_sequences a) then [Torch_load (path (load_sequences a))] else []) @
             (if truthy (save_builder a)
              then [ContextBuilder_save (computed_builder a dev n d)
                      (path (save_builder a))] else []) @
             (if truthy (load_builder a)
              then [ContextBuilder_load (path (load_builder a)) dev] else []) @
             (if truthy (save_interpreter a)
              then [Interpreter_save (computed_interpreter a dev n d k)
                      (path (save_interpreter a))] else []) @
             (if truthy (load_interpreter a)
              then [Interpreter_load (path (load_interpreter a))
                      (builder_in_use a dev n d)] else [])"
    by (simp only: fp fb fi append_assoc)
  with d0 q n k r bu iu show ?thesis
    unfolding dev by blast
qed

lemma builder_save_computed:
  assumes "ContextBuilder_save b p \<in> set (trace (main E a))"
  shows "p = path (save_builder a) \<and>
         (\<exists>d n. outcome (sequences E a) = Inr (Some d) \<and> events_in_use E a d = Some n \<and>
                b = computed_builder a (device_in_use E a) n d)"
proof -
  have "stage_of (ContextBuilder_save b p) = Builder" by simp
  from reach_builder [OF assms this] obtain seq dev n ev ctx
    where p: "outcome (prelude E a) = Inr seq"
      and s: "outcome (set_auto E a seq) = Inr (dev, n, ev, ctx)"
      and c: "ContextBuilder_save b p \<in> set (trace (make_context_builder E a dev n ev ctx))"
    by blast
  from set_auto_in_use [OF s] obtain d :: seqdata
    where d: "seq = Some d" and ev: "ev = tensor_to (d_events d) dev"
      and ctx: "ctx = tensor_to (d_context d) dev" and dev: "dev = device_in_use E a"
      and n: "events_in_use E a d = Some n"
    by blast
  from outcome_prelude [OF p] d have q: "outcome (sequences E a) = Inr (Some d)" by simp
  from saved_builder [OF c ev ctx] q n show ?thesis
    unfolding dev by blast
qed

lemma interp_call_context:
  assumes "c \<in> set (trace (main E a))" and "stage_of c = Interp"
  shows "\<exists>d n ev ctx b. outcome (sequences E a) = Inr (Some d) \<and>
           events_in_use E a d = Some n \<and>
           ev = tensor_to (d_events d) (device_in_use E a) \<and>
           ctx = tensor_to (d_context d) (device_in_use E a) \<and>
           b = builder_in_use a (device_in_use E a) n d \<and>
           c \<in> set (trace (make_interpreter E a (device_in_use E a) n ev ctx b))"
proof -
  from reach_interp [OF assms] obtain seq dev n ev ctx b
    where p: "outcome (prelude E a) = Inr seq"
      and s: "outcome (set_auto E a seq) = Inr (dev, n, ev, ctx)"
      and b: "outcome (make_context_builder E a dev n ev ctx) = Inr b"
      and c: "c \<in> set (trace (make_interpreter E a dev n ev ctx b))"
    by blast
  from set_auto_in_use [OF s] obtain d :: seqdata
    where d: "seq = Some d" and ev: "ev = tensor_to (d_events d) dev"
      and ctx: "ctx = tensor_to (d_context d) dev" and dev: "dev = device_in_use E a"
      and n: "events_in_use E a d = Some n"
    by blast
  from outcome_prelude [OF p] d have q: "outcome (sequences E a) = Inr (Some d)" by simp
  from returned_builder [OF b ev ctx] q n ev ctx c show ?thesis
    unfolding dev by blast
qed

lemma interpreter_save_computed:
  assumes "Interpreter_save i p \<in> set (trace (main E a))"
  shows "p = path (save_interpreter a) \<and>
         (\<exists>d n k. outcome (sequences E a) = Inr (Some d) \<and> events_in_use E a d = Some n \<and>
                (mode a = Train \<longrightarrow> shape0 (d_events d) = Some k) \<and>
                i = computed_interpreter a (device_in_use E a) n d k)"
proof -
  have "stage_of (Interpreter_save i p) = Interp" by simp
  from interp_call_context [OF assms this] obtain d :: seqdata and n ev ctx b
    where q: "outcome (sequences E a) = Inr (Some d)" and n: "events_in_use E a d = Some n"
      and ev: "ev = tensor_to (d_events d) (device_in_use E a)"
      and ctx: "ctx = tensor_to (d_context d) (device_in_use E a)"
      and b: "b = builder_in_use a (device_in_use E a) n d"
      and c: "Interpreter_save i p
                \<in> set (trace (make_interpreter E a (device_in_use E a) n ev ctx b))"
    by blast
  from saved_interpreter [OF c ev ctx b] q n show ?thesis by blast
qed

lemma interpreter_init_in_use:
  assumes "Interpreter_init b f e ms th \<in> set (trace (main E a))"
  shows "\<exists>d n. outcome (sequences E a) = Inr (Some d) \<and> events_in_use E a d = Some n \<and>
               b = builder_in_use a (device_in_use E a) n d"
proof -
  have "stage_of (Interpreter_init b f e ms th) = Interp" by simp
  from interp_call_context [OF assms this] obtain d :: seqdata and n ev ctx b'
    where q: "outcome (sequences E a) = Inr (Some d)" and n: "events_in_use E a d = Some n"
      and b: "b' = builder_in_use a (device_in_use E a) n d"
      and c: "Interpreter_init b f e ms th
                \<in> set (trace (make_interpreter E a (device_in_use E a) n ev ctx b'))"
    by blast
  from init_in_make_interpreter [OF c] b q n show ?thesis by blast
qed

lemma ex_save_load_run:
  "main ex_env (parse_args Train
      [Opt_csv ''a.csv'', Opt_save_sequences ''s.save'', Opt_load_sequences ''s.load'',
       Opt_save_builder ''b.save'', Opt_load_builder ''b.load'',
       Opt_save_interpreter ''i.save'', Opt_load_interpreter ''i.load'']) =
   (Inr \<lparr> f_context_builder = ContextBuilder_loaded ''b.load'' ''cpu'',
          f_interpreter = Interpreter_loaded ''i.load'' (ContextBuilder_loaded ''b.load'' ''cpu'') \<rparr>,
    [Preprocessor_init 10 86400, Preprocessor_csv ''a.csv'',
     Open_file ''s.save'' ''wb'', Torch_save ex_data ''s.save'',
     Open_file ''s.load'' ''rb'', Torch_load ''s.load'', Cuda_is_available,
     Tensor_to (Tensor ''cpu'' [2] [2, 1]) ''cpu'',
     Tensor_to (Tensor ''cpu'' [2, 1] [5, 2]) ''cpu'',
     ContextBuilder_init 3 3 128 1 10 False False,
     ContextBuilder_to (ContextBuilder_new 3 3 128 1 10 False False) ''cpu'',
     ContextBuilder_fit
       (ContextBuilder_moved (ContextBuilder_new 3 3 128 1 10 False False) ''cpu'')
       (Tensor ''cpu'' [2, 1] [5, 2]) (Tensor ''cpu'' [2, 1] [2, 1]) 10 128 (1 / 100) (1 / 2) True,
     ContextBuilder_save
       (ContextBuilder_fitted
         (ContextBuilder_moved (ContextBuilder_new 3 3 128 1 10 False False) ''cpu'')
         (Tensor ''cpu'' [2, 1] [5, 2]) (Tensor ''cpu'' [2, 1] [2, 1]) 10 128 (1 / 100) (1 / 2) True)
       ''b.save'',
     ContextBuilder_load ''b.load'' ''cpu'',
     Interpreter_init (ContextBuilder_loaded ''b.load'' ''cpu'') 3 (1 / 10) 5 (1 / 5),
     Interpreter_fit
       (Interpreter_new (ContextBuilder_loaded ''b.load'' ''cpu'') 3 (1 / 10) 5 (1 / 5))
       (Tensor ''cpu'' [2, 1] [5, 2]) (Tensor ''cpu'' [2, 1] [2, 1])
       (Tensor ''cpu'' [2, 1] [- 4, - 4]) 100 1024 True,
     Interpreter_save
       (Interpreter_fitted
         (Interpreter_new (ContextBuilder_loaded ''b.load'' ''cpu'') 3 (1 / 10) 5 (1 / 5))
         (Tensor ''cpu'' [2, 1] [5, 2]) (Tensor ''cpu'' [2, 1] [2, 1])
         (Tensor ''cpu'' [2, 1] [- 4, - 4]) 100 1024 True)
       ''i.save'',
     Interpreter_load ''i.load'' (ContextBuilder_loaded ''b.load'' ''cpu'')])"
  by (simp add: run_defs Let_def ex_env_def ex_loaded_def replicate_2)

subsection \<open>The Interpreter constructor of the specification\<close>

lemma set_auto_not_exited: "outcome (set_auto E a seq) \<noteq> Inl Exited"
  by (auto simp: set_auto_def step split: sum.splits option.splits if_splits)

lemma make_context_builder_not_exited:
  "outcome (make_context_builder E a dev n ev ctx) \<noteq> Inl Exited"
  by (auto simp: make_context_builder_def Let_def step split: sum.splits option.splits if_splits)

lemma make_interpreter_not_exited:
  "outcome (make_interpreter E a dev n ev ctx b) \<noteq> Inl Exited"
  by (auto simp: make_interpreter_def Let_def step split: sum.splits option.splits if_splits)

lemma analysis_not_exited: "outcome (analysis E a) \<noteq> Inl Exited"
  by (auto simp: analysis_def step split: sum.splits option.splits if_splits)

lemma models_not_exited: "outcome (models E a seq) \<noteq> Inl Exited"
  using set_auto_not_exited [of E a seq] make_context_builder_not_exited [of E a]
    make_interpreter_not_exited [of E a] analysis_not_exited [of E a]
  by (auto simp: models_def outcome_bind split: sum.splits prod.splits)

lemma sequence_mode_returns: "mode a \<noteq> Sequence \<Longrightarrow> outcome (sequence_mode E a seq) = Inr ()"
  by (simp add: sequence_mode_def)

lemma main_not_exited:
  assumes "mode a \<noteq> Sequence"
  shows "outcome (main E a) \<noteq> Inl Exited"
  using assms sequences_not_exited [of E a] models_not_exited [of E a]
  by (auto simp: main_prelude outcome_bind outcome_prelude_eq sequence_mode_returns
        split: sum.splits)

lemma unfitted_make_context_builder:
  assumes "outcome (make_context_builder E a dev n ev ctx) = Inr b"
    and "mode a \<noteq> Train" and "\<not> truthy (load_builder a)"
  shows "b = ContextBuilder_moved
               (ContextBuilder_new n n (hidden a) 1 (length_arg a) False False) dev"
  using assms
  by (auto simp: make_context_builder_def Let_def step split: sum.splits option.splits if_splits)

lemma rejected_make_interpreter:
  assumes "spec_interpreter E" and "\<not> fitted_builder b"
  shows "outcome (make_interpreter E a dev n ev ctx b) = Inl (Raised EncoderRequired) \<and>
         trace (make_interpreter E a dev n ev ctx b) =
           [Interpreter_init b n (epsilon a) (min_samples a) (confidence a)]"
  using assms
  by (simp add: make_interpreter_def spec_interpreter_def interpreter_init_raises_def step)

lemma main_stops_in_interpreter:
  assumes "outcome (prelude E a) = Inr seq"
    and "outcome (set_auto E a seq) = Inr (dev, n, ev, ctx)"
    and "outcome (make_context_builder E a dev n ev ctx) = Inr b"
    and "outcome (make_interpreter E a dev n ev ctx b) = Inl s"
  shows "outcome (main E a) = Inl s \<and>
         trace (main E a) =
           (trace (prelude E a) @ trace (set_auto E a seq) @
            trace (make_context_builder E a dev n ev ctx)) @
           trace (make_interpreter E a dev n ev ctx b)"
  using assms by (simp add: main_prelude models_def outcome_bind trace_bind)

lemma quiet_set_auto:
  assumes "\<forall>c. stage_of c \<noteq> Interp \<longrightarrow> raises E c = None"
    and "events_in_use E a d = Some n"
  shows "outcome (set_auto E a (Some d)) =
           Inr (device_in_use E a, n, tensor_to (d_events d) (device_in_use E a),
                tensor_to (d_context d) (device_in_use E a))"
proof -
  from assms(1) have "raises E Cuda_is_available = None" "\<And>t dv. raises E (Tensor_to t dv) = None"
    by simp_all
  with assms(2) show ?thesis
    by (auto simp: set_auto_def events_in_use_def device_in_use_def step
          split: sum.splits option.splits if_splits)
qed

lemma quiet_make_context_builder:
  assumes "\<forall>c. stage_of c \<noteq> Interp \<longrightarrow> raises E c = None"
  shows "\<exists>b. outcome (make_context_builder E a dev n ev ctx) = Inr b"
proof -
  from assms have
    "\<And>i ou h nl ml bd ls. raises E (ContextBuilder_init i ou h nl ml bd ls) = None"
    "\<And>b dv. raises E (ContextBuilder_to b dv) = None"
    "\<And>b X y ep ba lr tr v. raises E (ContextBuilder_fit b X y ep ba lr tr v) = None"
    "\<And>b p. raises E (ContextBuilder_save b p) = None"
    "\<And>p dv. raises E (ContextBuilder_load p dv) = None"
    by simp_all
  then show ?thesis
    by (simp add: make_context_builder_def Let_def step)
qed

lemma ex_spec_interpreter: "spec_interpreter ex_spec_env"
  by (simp add: spec_interpreter_def ex_spec_env_def)

lemma ex_spec_manual_run:
  "main ex_spec_env (parse_args Manual [Opt_csv ''a.csv'']) =
   (Inl (Raised EncoderRequired),
    [Preprocessor_init 10 86400, Preprocessor_csv ''a.csv'', Cuda_is_available,
     Tensor_to (Tensor ''cpu'' [3] [0, 1, 0]) ''cpu'',
     Tensor_to (Tensor ''cpu'' [3, 2] [5, 5, 5, 0, 0, 1]) ''cpu'',
     ContextBuilder_init 2 2 128 1 10 False False,
     ContextBuilder_to (ContextBuilder_new 2 2 128 1 10 False False) ''cpu'',
     Interpreter_init
       (ContextBuilder_moved (ContextBuilder_new 2 2 128 1 10 False False) ''cpu'')
       2 (1 / 10) 5 (1 / 5)])"
  by (simp add: run_defs Let_def ex_defs ex_spec_env_def interpreter_init_raises_def)

lemma ex_spec_train_run:
  "main ex_spec_env (parse_args Train [Opt_csv ''a.csv'']) =
   main ex_env (parse_args Train [Opt_csv ''a.csv''])"
  unfolding ex_train_run
  by (simp add: run_defs Let_def ex_defs ex_spec_env_def interpreter_init_raises_def replicate_3)

lemma automatic_analysis_is_a_print:
  assumes "mode a = Automatic"
  shows "(\<forall>c \<in> set (trace (main E a)). stage_of c = Analysis \<longrightarrow>
            c = Print ''SEMI-AUTOMATIC mode'') \<and>
         (\<forall>r. outcome (main E a) = Inr r \<longrightarrow>
            (\<exists>pre. trace (main E a) = pre @ [Print ''SEMI-AUTOMATIC mode''] \<and>
                   (\<forall>c \<in> set pre. stage_of c \<noteq> Analysis))) \<and>
         (\<forall>b X y ep ba lr tr v.
            ContextBuilder_fit b X y ep ba lr tr v \<notin> set (trace (main E a))) \<and>
         (\<forall>i X y sc it bs v. Interpreter_fit i X y sc it bs v \<notin> set (trace (main E a)))"
proof (intro conjI allI ballI impI)
  fix c assume "c \<in> set (trace (main E a))" and "stage_of c = Analysis"
  from in_analysis [OF analysis_stage_main [OF this]]
  show "c = Print ''SEMI-AUTOMATIC mode''" by simp
next
  fix r assume "outcome (main E a) = Inr r"
  from outcome_main_Inr [OF this] obtain seq dev n ev ctx b
    where t: "trace (main E a) =
             trace (prelude E a) @ trace (set_auto E a seq) @
             trace (make_context_builder E a dev n ev ctx) @
             trace (make_interpreter E a dev n ev ctx b) @ trace (analysis E a)"
    by blast
  let ?pre = "trace (prelude E a) @ trace (set_auto E a seq) @
             trace (make_context_builder E a dev n ev ctx) @
             trace (make_interpreter E a dev n ev ctx b)"
  from t have "trace (main E a) = ?pre @ [Print ''SEMI-AUTOMATIC mode'']"
    by (simp add: trace_analysis_automatic [OF assms])
  moreover have "\<forall>c \<in> set ?pre. stage_of c \<noteq> Analysis"
    by (auto dest: stage_prelude stage_set_auto stage_make_context_builder
          stage_make_interpreter)
  ultimately show "\<exists>pre. trace (main E a) = pre @ [Print ''SEMI-AUTOMATIC mode''] \<and>
                   (\<forall>c \<in> set pre. stage_of c \<noteq> Analysis)"
    by blast
next
  fix b X y ep ba lr tr v
  show "ContextBuilder_fit b X y ep ba lr tr v \<notin> set (trace (main E a))"
  proof
    assume c: "ContextBuilder_fit b X y ep ba lr tr v \<in> set (trace (main E a))"
    have "stage_of (ContextBuilder_fit b X y ep ba lr tr v) = Builder" by simp
    from reach_builder [OF c this] have "mode a = Train"
      by (auto dest: builder_fit_in_make_context_builder)
    with assms show False by simp
  qed
next
  fix i X y sc it bs v
  show "Interpreter_fit i X y sc it bs v \<notin> set (trace (main E a))"
  proof
    assume c: "Interpreter_fit i X y sc it bs v \<in> set (trace (main E a))"
    have "stage_of (Interpreter_fit i X y sc it bs v) = Interp" by simp
    from reach_interp [OF c this] have "mode a = Train"
      by (auto dest: fit_in_make_interpreter)
    with assms show False by simp
  qed
qed

subsection \<open>The claims\<close>

text \<open>
  Claim C1. In train mode the ContextBuilder is fitted before the Interpreter, on the
  same data. Whenever \<^verbatim>\<open>Interpreter.fit\<close> is called, its X is the context and its y the
  reshaped events of the sequences in use, both cast to the device, and the calls before
  it contain a \<^verbatim>\<open>ContextBuilder.fit\<close> with that X and that y and the configured epochs
  and batch size. A train run that ends normally has made both calls, in that order.
\<close>

theorem builder_fit_before_interpreter_fit:
  assumes "mode a = Train"
  shows "(\<forall>pre ip X y sc it bs vb post.
            trace (main E a) = pre @ Interpreter_fit ip X y sc it bs vb # post \<longrightarrow>
            (\<exists>d. outcome (sequences E a) = Inr (Some d) \<and>
               X = tensor_to (d_context d) (device_in_use E a) \<and>
               y = reshape_col (tensor_to (d_events d) (device_in_use E a)) \<and>
               (\<exists>b. ContextBuilder_fit b X y (epochs a) (batch a) (1 / 100) (1 / 2) True
                       \<in> set pre))) \<and>
         (\<forall>r. outcome (main E a) = Inr r \<longrightarrow>
            (\<exists>d pre ip sc post b.
               outcome (sequences E a) = Inr (Some d) \<and>
               trace (main E a) =
                 pre @ Interpreter_fit ip (tensor_to (d_context d) (device_in_use E a))
                         (reshape_col (tensor_to (d_events d) (device_in_use E a)))
                         sc 100 1024 True # post \<and>
               ContextBuilder_fit b (tensor_to (d_context d) (device_in_use E a))
                 (reshape_col (tensor_to (d_events d) (device_in_use E a)))
                 (epochs a) (batch a) (1 / 100) (1 / 2) True \<in> set pre))"
proof -
  have first: "\<exists>d. outcome (sequences E a) = Inr (Some d) \<and>
               X = tensor_to (d_context d) (device_in_use E a) \<and>
               y = reshape_col (tensor_to (d_events d) (device_in_use E a)) \<and>
               it = 100 \<and> bs = 1024 \<and> vb \<and>
               (\<exists>b. ContextBuilder_fit b X y (epochs a) (batch a) (1 / 100) (1 / 2) True
                       \<in> set pre)"
    if t: "trace (main E a) = pre @ Interpreter_fit ip X y sc it bs vb # post"
    for pre ip X y sc it bs vb post
  proof -
    let ?c = "Interpreter_fit ip X y sc it bs vb"
    have "?c \<in> set (trace (main E a))" by (simp add: t)
    from trace_main_interp [OF this] obtain seq dev n ev ctx b rest
      where p: "outcome (prelude E a) = Inr seq"
        and s: "outcome (set_auto E a seq) = Inr (dev, n, ev, ctx)"
        and b: "outcome (make_context_builder E a dev n ev ctx) = Inr b"
        and c: "?c \<in> set (trace (make_interpreter E a dev n ev ctx b))"
        and m: "trace (main E a) =
                  (trace (prelude E a) @ trace (set_auto E a seq) @
                   trace (make_context_builder E a dev n ev ctx)) @ rest"
      by auto
    have "?c \<notin> set (trace (prelude E a) @ trace (set_auto E a seq) @
                    trace (make_context_builder E a dev n ev ctx))"
      by (auto dest: stage_prelude stage_set_auto stage_make_context_builder)
    with m t obtain q where
      "pre = (trace (prelude E a) @ trace (set_auto E a seq) @
              trace (make_context_builder E a dev n ev ctx)) @ q"
      using split_right by metis
    then have sub: "set (trace (make_context_builder E a dev n ev ctx)) \<subseteq> set pre"
      by auto
    from set_auto_in_use [OF s] obtain d :: seqdata
      where d: "seq = Some d" "ev = tensor_to (d_events d) dev"
               "ctx = tensor_to (d_context d) dev" "dev = device_in_use E a"
      by blast
    from outcome_prelude [OF p] d(1) have q: "outcome (sequences E a) = Inr (Some d)" by simp
    from fit_in_make_interpreter [OF c]
    have f: "X = ctx" "y = reshape_col ev" "it = 100" "bs = 1024" "vb" by simp_all
    from fit_in_make_context_builder [OF b assms] sub f(1,2)
    have "\<exists>b. ContextBuilder_fit b X y (epochs a) (batch a) (1 / 100) (1 / 2) True \<in> set pre"
      by blast
    with q f d show ?thesis by blast
  qed
  show ?thesis
  proof (intro conjI allI impI)
    fix pre ip X y sc it bs vb post
    assume "trace (main E a) = pre @ Interpreter_fit ip X y sc it bs vb # post"
    from first [OF this]
    show "\<exists>d. outcome (sequences E a) = Inr (Some d) \<and>
               X = tensor_to (d_context d) (device_in_use E a) \<and>
               y = reshape_col (tensor_to (d_events d) (device_in_use E a)) \<and>
               (\<exists>b. ContextBuilder_fit b X y (epochs a) (batch a) (1 / 100) (1 / 2) True
                       \<in> set pre)"
      by blast
  next
    fix r assume "outcome (main E a) = Inr r"
    from outcome_main_Inr [OF this] obtain seq dev n ev ctx b i
      where i: "outcome (make_interpreter E a dev n ev ctx b) = Inr i"
        and t: "trace (main E a) =
               trace (prelude E a) @ trace (set_auto E a seq) @
               trace (make_context_builder E a dev n ev ctx) @
               trace (make_interpreter E a dev n ev ctx b) @ trace (analysis E a)"
      by blast
    from t have "set (trace (make_interpreter E a dev n ev ctx b)) \<subseteq> set (trace (main E a))"
      by auto
    with fitted_make_interpreter [OF i assms] obtain ip X y sc it bs vb
      where "Interpreter_fit ip X y sc it bs vb \<in> set (trace (main E a))"
      by blast
    then obtain pre post
      where s: "trace (main E a) = pre @ Interpreter_fit ip X y sc it bs vb # post"
      by (auto dest: split_list)
    from first [OF s] obtain d :: seqdata and b'
      where q: "outcome (sequences E a) = Inr (Some d)"
        and X: "X = tensor_to (d_context d) (device_in_use E a)"
        and y: "y = reshape_col (tensor_to (d_events d) (device_in_use E a))"
        and r: "it = 100" "bs = 1024" "vb"
        and cb: "ContextBuilder_fit b' X y (epochs a) (batch a) (1 / 100) (1 / 2) True \<in> set pre"
      by blast
    from s X y r have t': "trace (main E a) =
                 pre @ Interpreter_fit ip (tensor_to (d_context d) (device_in_use E a))
                         (reshape_col (tensor_to (d_events d) (device_in_use E a)))
                         sc 100 1024 True # post"
      by simp
    from cb X y have cb': "ContextBuilder_fit b' (tensor_to (d_context d) (device_in_use E a))
                 (reshape_col (tensor_to (d_events d) (device_in_use E a)))
                 (epochs a) (batch a) (1 / 100) (1 / 2) True \<in> set pre"
      by simp
    from q t' cb'
    show "\<exists>d pre ip sc post b.
               outcome (sequences E a) = Inr (Some d) \<and>
               trace (main E a) =
                 pre @ Interpreter_fit ip (tensor_to (d_context d) (device_in_use E a))
                         (reshape_col (tensor_to (d_events d) (device_in_use E a)))
                         sc 100 1024 True # post \<and>
               ContextBuilder_fit b (tensor_to (d_context d) (device_in_use E a))
                 (reshape_col (tensor_to (d_events d) (device_in_use E a)))
                 (epochs a) (batch a) (1 / 100) (1 / 2) True \<in> set pre"
      by blast
  qed
qed

theorem builder_fit_before_interpreter_fit_witness:
  "mode (parse_args Train [Opt_csv ''a.csv'']) = Train \<and>
   outcome (sequences ex_env (parse_args Train [Opt_csv ''a.csv''])) = Inr (Some ex_data) \<and>
   tensor_to (d_context ex_data) (device_in_use ex_env (parse_args Train [Opt_csv ''a.csv''])) =
     Tensor ''cpu'' [3, 2] [5, 5, 5, 0, 0, 1] \<and>
   reshape_col (tensor_to (d_events ex_data)
       (device_in_use ex_env (parse_args Train [Opt_csv ''a.csv'']))) =
     Tensor ''cpu'' [3, 1] [0, 1, 0] \<and>
   trace (main ex_env (parse_args Train [Opt_csv ''a.csv''])) ! 7 =
     ContextBuilder_fit
       (ContextBuilder_moved (ContextBuilder_new 2 2 128 1 10 False False) ''cpu'')
       (Tensor ''cpu'' [3, 2] [5, 5, 5, 0, 0, 1]) (Tensor ''cpu'' [3, 1] [0, 1, 0])
       10 128 (1 / 100) (1 / 2) True \<and>
   trace (main ex_env (parse_args Train [Opt_csv ''a.csv''])) ! 9 =
     Interpreter_fit
       (Interpreter_new
         (ContextBuilder_fitted
           (ContextBuilder_moved (ContextBuilder_new 2 2 128 1 10 False False) ''cpu'')
           (Tensor ''cpu'' [3, 2] [5, 5, 5, 0, 0, 1]) (Tensor ''cpu'' [3, 1] [0, 1, 0])
           10 128 (1 / 100) (1 / 2) True)
         2 (1 / 10) 5 (1 / 5))
       (Tensor ''cpu'' [3, 2] [5, 5, 5, 0, 0, 1]) (Tensor ''cpu'' [3, 1] [0, 1, 0])
       (Tensor ''cpu'' [3, 1] [- 4, - 4, - 4]) 100 1024 True"
proof -
  let ?a = "parse_args Train [Opt_csv ''a.csv'']"
  have m: "mode ?a = Train"
    by (simp add: parse_args_def default_args_def)
  obtain r where "outcome (main ex_env ?a) = Inr r"
    by (simp add: outcome_def ex_train_run)
  with builder_fit_before_interpreter_fit [OF m, of ex_env]
  have "\<exists>d. outcome (sequences ex_env ?a) = Inr (Some d)"
    by blast
  moreover have "outcome (sequences ex_env ?a) = Inr (Some ex_data)"
    by (simp add: run_defs ex_env_def)
  moreover have "device_in_use ex_env ?a = ''cpu''"
    by (simp add: device_in_use_def parse_args_def default_args_def ex_env_def)
  ultimately show ?thesis
    by (simp add: m trace_def ex_train_run) (simp add: ex_data_def tensor_to_def reshape_col_def)
qed

text \<open>
  Claim C2. Sequence mode involves no model: a run in sequence mode makes no call
  that constructs, trains, saves or loads a ContextBuilder or an Interpreter, it never
  gets past the exit, and when it exits its last two calls are the rendering of the
  sequences and the exit.
\<close>

theorem sequence_mode_no_model:
  assumes "mode a = Sequence"
  shows "(\<forall>c \<in> set (trace (main E a)). \<not> model_call c) \<and>
         (\<forall>r. outcome (main E a) \<noteq> Inr r) \<and>
         (outcome (main E a) = Inl Exited \<longrightarrow>
            (\<exists>pre c e l m n. trace (main E a) = pre @ [Show_sequences c e l m n, Sys_exit]))"
proof (intro conjI ballI allI impI)
  fix c assume "c \<in> set (trace (main E a))"
  with main_sequence_mode [OF assms, of E] have "c \<in> set (trace (prelude E a))" by auto
  then show "\<not> model_call c"
    by (auto simp: model_call_def dest: stage_prelude)
next
  fix r show "outcome (main E a) \<noteq> Inr r"
    using main_sequence_mode [OF assms, of E] by auto
next
  assume "outcome (main E a) = Inl Exited"
  with main_sequence_mode [OF assms, of E]
  have x: "outcome (prelude E a) = Inl Exited" and t: "trace (main E a) = trace (prelude E a)"
    by auto
  from x obtain seq where s: "outcome (sequences E a) = Inr seq"
    and m: "outcome (sequence_mode E a seq) = Inl Exited"
    using sequences_not_exited [of E a]
    by (auto simp: outcome_prelude_eq split: sum.splits)
  from sequence_mode_exited [OF m] obtain d :: seqdata where
    "trace (sequence_mode E a seq) =
       [Show_sequences (d_context d) (d_events d) (d_label d) (d_mapping d) (NO_EVENT E), Sys_exit]"
    by blast
  with s t have "trace (main E a) = trace (sequences E a) @
       [Show_sequences (d_context d) (d_events d) (d_label d) (d_mapping d) (NO_EVENT E), Sys_exit]"
    by (simp add: trace_prelude_eq)
  then show "\<exists>pre c e l m n. trace (main E a) = pre @ [Show_sequences c e l m n, Sys_exit]"
    by blast
qed

theorem sequence_mode_no_model_witness:
  "mode (parse_args Sequence [Opt_txt ''a.txt'']) = Sequence \<and>
   outcome (main ex_env (parse_args Sequence [Opt_txt ''a.txt''])) = Inl Exited \<and>
   trace (main ex_env (parse_args Sequence [Opt_txt ''a.txt''])) =
     [Preprocessor_init 10 86400, Preprocessor_txt ''a.txt''] @
     [Show_sequences (Tensor ''cpu'' [3, 2] [5, 5, 5, 0, 0, 1]) (Tensor ''cpu'' [3] [0, 1, 0])
        None [(0, ''login''), (1, ''scan'')] (- 1337),
      Sys_exit] \<and>
   \<not> model_call (Preprocessor_txt ''a.txt'')"
proof -
  have m: "mode (parse_args Sequence [Opt_txt ''a.txt'']) = Sequence"
    by (simp add: parse_args_def default_args_def)
  have "Preprocessor_txt ''a.txt''
          \<in> set (trace (main ex_env (parse_args Sequence [Opt_txt ''a.txt''])))"
    by (simp add: trace_def ex_sequence_run)
  with sequence_mode_no_model [OF m, of ex_env]
  have "\<not> model_call (Preprocessor_txt ''a.txt'')"
    by blast
  then show ?thesis
    by (simp add: m trace_def outcome_def ex_sequence_run)
qed

text \<open>
  Claim C3. With the Interpreter constructor of the specification, a run in manual or
  automatic mode without \<^verbatim>\<open>--load-builder\<close> does not proceed: it always ends with an
  exception and never reaches the analysis. When it gets as far as constructing the
  Interpreter, the ContextBuilder it passes is not fitted, the exception is the
  ModelStateError of that constructor, and the constructor call is the last call of the
  run; and it does get that far when the sequences are available, \<^verbatim>\<open>--events\<close> is
  usable and no earlier call raises.
  A train run passes the same constructor (\<open>ex_spec_train_run\<close>).
\<close>

theorem unfitted_model_rejected:
  assumes "spec_interpreter E"
    and "mode a = Manual \<or> mode a = Automatic"
    and "\<not> truthy (load_builder a)"
  shows "(\<exists>x. outcome (main E a) = Inl (Raised x)) \<and>
         (\<forall>c \<in> set (trace (main E a)). stage_of c \<noteq> Analysis) \<and>
         (\<forall>b f e ms th. Interpreter_init b f e ms th \<in> set (trace (main E a)) \<longrightarrow>
            \<not> fitted_builder b \<and>
            (\<exists>x. model_state_error x \<and> outcome (main E a) = Inl (Raised x)) \<and>
            (\<exists>pre. trace (main E a) = pre @ [Interpreter_init b f e ms th])) \<and>
         ((\<forall>c. stage_of c \<noteq> Interp \<longrightarrow> raises E c = None) \<longrightarrow>
            (\<forall>d n. outcome (sequences E a) = Inr (Some d) \<longrightarrow> events_in_use E a d = Some n \<longrightarrow>
               Interpreter_init
                 (ContextBuilder_moved
                    (ContextBuilder_new n n (hidden a) 1 (length_arg a) False False)
                    (device_in_use E a))
                 n (epsilon a) (min_samples a) (confidence a)
               \<in> set (trace (main E a))))"
proof -
  from assms(2) have m: "mode a \<noteq> Train" "mode a \<noteq> Sequence" by auto
  have stop: "outcome (main E a) = Inl (Raised EncoderRequired) \<and>
              trace (main E a) =
                (trace (prelude E a) @ trace (set_auto E a seq) @
                 trace (make_context_builder E a dev n ev ctx)) @
                [Interpreter_init b n (epsilon a) (min_samples a) (confidence a)] \<and>
              \<not> fitted_builder b \<and>
              b = ContextBuilder_moved
                    (ContextBuilder_new n n (hidden a) 1 (length_arg a) False False) dev"
    if p: "outcome (prelude E a) = Inr seq"
      and s: "outcome (set_auto E a seq) = Inr (dev, n, ev, ctx)"
      and b: "outcome (make_context_builder E a dev n ev ctx) = Inr b"
    for seq dev n ev ctx b
  proof -
    from unfitted_make_context_builder [OF b m(1) assms(3)]
    have u: "b = ContextBuilder_moved
                   (ContextBuilder_new n n (hidden a) 1 (length_arg a) False False) dev"
      by simp
    then have nf: "\<not> fitted_builder b" by simp
    from rejected_make_interpreter [OF assms(1) nf, of a dev n ev ctx]
      main_stops_in_interpreter [OF p s b, of "Raised EncoderRequired"] u nf
    show ?thesis by simp
  qed
  have 1: "\<exists>x. outcome (main E a) = Inl (Raised x)"
  proof (cases "outcome (main E a)")
    case (Inl s)
    with main_not_exited [OF m(2), of E] show ?thesis by (cases s) auto
  next
    case (Inr r)
    from outcome_main_Inr [OF Inr] obtain seq dev n ev ctx b
      where "outcome (prelude E a) = Inr seq"
        and "outcome (set_auto E a seq) = Inr (dev, n, ev, ctx)"
        and "outcome (make_context_builder E a dev n ev ctx) = Inr b"
      by blast
    from stop [OF this] Inr show ?thesis by simp
  qed
  have 2: "\<forall>c \<in> set (trace (main E a)). stage_of c \<noteq> Analysis"
  proof
    fix c assume c: "c \<in> set (trace (main E a))"
    show "stage_of c \<noteq> Analysis"
    proof
      assume an: "stage_of c = Analysis"
      from in_main_cases [OF c] an obtain seq
        where p: "outcome (prelude E a) = Inr seq" and "c \<in> set (trace (models E a seq))"
        by (auto dest: stage_prelude)
      from in_models_cases [OF this(2)] an obtain dev n ev ctx b i
        where s: "outcome (set_auto E a seq) = Inr (dev, n, ev, ctx)"
          and b: "outcome (make_context_builder E a dev n ev ctx) = Inr b"
          and i: "outcome (make_interpreter E a dev n ev ctx b) = Inr i"
        by (auto dest: stage_set_auto stage_make_context_builder stage_make_interpreter)
      from stop [OF p s b] have "\<not> fitted_builder b" by simp
      from rejected_make_interpreter [OF assms(1) this, of a dev n ev ctx] i
      show False by simp
    qed
  qed
  have 3: "\<not> fitted_builder b \<and>
           (\<exists>x. model_state_error x \<and> outcome (main E a) = Inl (Raised x)) \<and>
           (\<exists>pre. trace (main E a) = pre @ [Interpreter_init b f e ms th])"
    if c: "Interpreter_init b f e ms th \<in> set (trace (main E a))" for b f e ms th
  proof -
    have "stage_of (Interpreter_init b f e ms th) = Interp" by simp
    from reach_interp [OF c this] obtain seq dev n ev ctx b0
      where p: "outcome (prelude E a) = Inr seq"
        and s: "outcome (set_auto E a seq) = Inr (dev, n, ev, ctx)"
        and b0: "outcome (make_context_builder E a dev n ev ctx) = Inr b0"
        and ci: "Interpreter_init b f e ms th \<in> set (trace (make_interpreter E a dev n ev ctx b0))"
      by blast
    from init_in_make_interpreter [OF ci]
    have e: "b = b0" "f = n" "e = epsilon a" "ms = min_samples a" "th = confidence a"
      by simp_all
    from stop [OF p s b0] e
    have "outcome (main E a) = Inl (Raised EncoderRequired)" "\<not> fitted_builder b"
      "\<exists>pre. trace (main E a) = pre @ [Interpreter_init b f e ms th]"
      by auto
    moreover have "model_state_error EncoderRequired" by simp
    ultimately show ?thesis by blast
  qed
  have 4: "Interpreter_init
                 (ContextBuilder_moved
                    (ContextBuilder_new n n (hidden a) 1 (length_arg a) False False)
                    (device_in_use E a))
                 n (epsilon a) (min_samples a) (confidence a)
               \<in> set (trace (main E a))"
    if q: "\<forall>c. stage_of c \<noteq> Interp \<longrightarrow> raises E c = None"
      and sq: "outcome (sequences E a) = Inr (Some d)" and n: "events_in_use E a d = Some n"
    for d n
  proof -
    from sq m(2) have p: "outcome (prelude E a) = Inr (Some d)"
      by (simp add: outcome_prelude_eq sequence_mode_returns)
    note s = quiet_set_auto [OF q n]
    from quiet_make_context_builder [OF q] obtain b
      where b: "outcome (make_context_builder E a (device_in_use E a) n
                  (tensor_to (d_events d) (device_in_use E a))
                  (tensor_to (d_context d) (device_in_use E a))) = Inr b"
      by blast
    from stop [OF p s b] show ?thesis by simp
  qed
  from 1 2 3 4 show ?thesis by blast
qed

theorem unfitted_model_rejected_witness:
  "spec_interpreter ex_spec_env \<and>
   mode (parse_args Manual [Opt_csv ''a.csv'']) = Manual \<and>
   \<not> truthy (load_builder (parse_args Manual [Opt_csv ''a.csv''])) \<and>
   raises ex_spec_env (Preprocessor_csv ''a.csv'') = None \<and>
   outcome (sequences ex_spec_env (parse_args Manual [Opt_csv ''a.csv''])) =
     Inr (Some ex_data) \<and>
   events_in_use ex_spec_env (parse_args Manual [Opt_csv ''a.csv'']) ex_data = Some 2 \<and>
   outcome (main ex_spec_env (parse_args Manual [Opt_csv ''a.csv''])) =
     Inl (Raised EncoderRequired) \<and>
   model_state_error EncoderRequired \<and>
   length (trace (main ex_spec_env (parse_args Manual [Opt_csv ''a.csv'']))) = 8 \<and>
   trace (main ex_spec_env (parse_args Manual [Opt_csv ''a.csv''])) ! 7 =
     Interpreter_init
       (ContextBuilder_moved (ContextBuilder_new 2 2 128 1 10 False False) ''cpu'')
       2 (1 / 10) 5 (1 / 5) \<and>
   \<not> fitted_builder
       (ContextBuilder_moved (ContextBuilder_new 2 2 128 1 10 False False) ''cpu'')"
proof -
  let ?a = "parse_args Manual [Opt_csv ''a.csv'']"
  let ?c = "Interpreter_init
       (ContextBuilder_moved
          (ContextBuilder_new 2 2 (hidden ?a) 1 (length_arg ?a) False False)
          (device_in_use ex_spec_env ?a))
       2 (epsilon ?a) (min_samples ?a) (confidence ?a)"
  have m: "mode ?a = Manual \<or> mode ?a = Automatic" and m': "mode ?a = Manual"
    and l: "\<not> truthy (load_builder ?a)"
    by (simp_all add: parse_args_def default_args_def truthy_def)
  have q: "\<forall>c. stage_of c \<noteq> Interp \<longrightarrow> raises ex_spec_env c = None"
    by (auto simp: ex_spec_env_def split: call.splits)
  have s: "outcome (sequences ex_spec_env ?a) = Inr (Some ex_data)"
    by (simp add: run_defs ex_spec_env_def ex_env_def)
  have n: "events_in_use ex_spec_env ?a ex_data = Some 2"
    by (simp add: events_in_use_def parse_args_def default_args_def len_mapping_def ex_data_def)
  note th = unfitted_model_rejected [OF ex_spec_interpreter m l]
  from th q s n have c: "?c \<in> set (trace (main ex_spec_env ?a))"
    by blast
  with th have "\<exists>x. model_state_error x \<and> outcome (main ex_spec_env ?a) = Inl (Raised x)"
    by blast
  with m' l ex_spec_interpreter s n show ?thesis
    by (simp add: trace_def outcome_def ex_spec_manual_run) (simp add: ex_spec_env_def)
qed

text \<open>
  Claim C4. Automatic mode is to apply the label of its cluster to every point whose
  confidence reaches the threshold. The script does not: an automatic run on three
  events, with a loaded ContextBuilder and a loaded Interpreter, makes no call after
  loading the Interpreter except one print, so no confidence is obtained and no label is
  applied to any of the three points (\<open>automatic_analysis_is_a_print\<close> shows the same for
  every automatic run).
\<close>

theorem automatic_mode_only_prints:
  "main ex_spec_env (parse_args Automatic
      [Opt_csv ''a.csv'', Opt_load_builder ''b.load'', Opt_load_interpreter ''i.load'']) =
   (Inr \<lparr> f_context_builder = ContextBuilder_loaded ''b.load'' ''cpu'',
          f_interpreter = Interpreter_loaded ''i.load'' (ContextBuilder_loaded ''b.load'' ''cpu'') \<rparr>,
    [Preprocessor_init 10 86400, Preprocessor_csv ''a.csv'', Cuda_is_available,
     Tensor_to (Tensor ''cpu'' [3] [0, 1, 0]) ''cpu'',
     Tensor_to (Tensor ''cpu'' [3, 2] [5, 5, 5, 0, 0, 1]) ''cpu'',
     ContextBuilder_init 2 2 128 1 10 False False,
     ContextBuilder_to (ContextBuilder_new 2 2 128 1 10 False False) ''cpu'',
     ContextBuilder_load ''b.load'' ''cpu'',
     Interpreter_init (ContextBuilder_loaded ''b.load'' ''cpu'') 2 (1 / 10) 5 (1 / 5),
     Interpreter_load ''i.load'' (ContextBuilder_loaded ''b.load'' ''cpu''),
     Print ''SEMI-AUTOMATIC mode''])"
  by (simp add: run_defs Let_def ex_defs ex_spec_env_def interpreter_init_raises_def)

text \<open>
  Claim C5. The defaults of the parser are those of the specification
  (\<open>parsed_defaults\<close>), but the script never reads \<^verbatim>\<open>--delta\<close>: a train run with
  \<^verbatim>\<open>--delta 0.5\<close> makes the same calls with the same arguments, and ends in the same
  state, as the run with the default 0.1.
\<close>

theorem delta_option_ignored:
  "delta (parse_args Train [Opt_csv ''a.csv'', Opt_delta (1 / 2)]) = 1 / 2 \<and>
   delta (parse_args Train [Opt_csv ''a.csv'']) = 1 / 10 \<and>
   main ex_env (parse_args Train [Opt_csv ''a.csv'', Opt_delta (1 / 2)]) =
   main ex_env (parse_args Train [Opt_csv ''a.csv''])"
proof -
  have "parse_args Train [Opt_csv ''a.csv'', Opt_delta (1 / 2)] =
        (parse_args Train [Opt_csv ''a.csv''])\<lparr>delta := 1 / 2\<rparr>"
    by (simp add: parse_args_def)
  then show ?thesis
    by (simp add: delta_unused) (simp add: parse_args_def default_args_def)
qed



text \<open>
  Claim C7. The score handed to \<^verbatim>\<open>Interpreter.fit\<close> is the sentinel -4 for every
  event: the call happens only in train mode, and its score tensor has shape (k, 1),
  where k is the first dimension of the events tensor, and holds k entries, all -4.
\<close>

theorem initial_score_minus_four:
  assumes "Interpreter_fit ip X y sc it bs vb \<in> set (trace (main E a))"
  shows "mode a = Train \<and>
         (\<exists>d dev k. outcome (sequences E a) = Inr (Some d) \<and>
            y = reshape_col (tensor_to (d_events d) dev) \<and>
            shape0 (d_events d) = Some k \<and>
            sc = Tensor dev [k, 1] (replicate k (- 4)))"
proof -
  from reach_interp [OF assms] obtain seq dev n ev ctx b
    where p: "outcome (prelude E a) = Inr seq"
      and s: "outcome (set_auto E a seq) = Inr (dev, n, ev, ctx)"
      and c: "Interpreter_fit ip X y sc it bs vb
                \<in> set (trace (make_interpreter E a dev n ev ctx b))"
    by auto
  from outcome_set_auto [OF s] obtain d :: seqdata
    where d: "seq = Some d" "ev = tensor_to (d_events d) dev"
    by blast
  from fit_in_make_interpreter [OF c] obtain k
    where f: "mode a = Train" "y = reshape_col ev" "shape0 ev = Some k"
             "sc = sub_scalar (zeros [k, 1] dev) 4"
    by blast
  from f(3) d(2) have k: "shape0 (d_events d) = Some k"
    by (simp add: shape0_def tensor_to_def)
  have "sub_scalar (zeros [k, 1] dev) 4 = Tensor dev [k, 1] (replicate k (- 4))"
    by (simp add: sub_scalar_def zeros_def)
  with f d k outcome_prelude [OF p] show ?thesis
    by blast
qed

theorem initial_score_minus_four_witness:
  "trace (main ex_env (parse_args Train [Opt_csv ''a.csv''])) ! 9 =
     Interpreter_fit
       (Interpreter_new
         (ContextBuilder_fitted
           (ContextBuilder_moved (ContextBuilder_new 2 2 128 1 10 False False) ''cpu'')
           (Tensor ''cpu'' [3, 2] [5, 5, 5, 0, 0, 1]) (Tensor ''cpu'' [3, 1] [0, 1, 0])
           10 128 (1 / 100) (1 / 2) True)
         2 (1 / 10) 5 (1 / 5))
       (Tensor ''cpu'' [3, 2] [5, 5, 5, 0, 0, 1]) (Tensor ''cpu'' [3, 1] [0, 1, 0])
       (Tensor ''cpu'' [3, 1] [- 4, - 4, - 4]) 100 1024 True \<and>
   mode (parse_args Train [Opt_csv ''a.csv'']) = Train"
proof -
  have "Interpreter_fit
       (Interpreter_new
         (ContextBuilder_fitted
           (ContextBuilder_moved (ContextBuilder_new 2 2 128 1 10 False False) ''cpu'')
           (Tensor ''cpu'' [3, 2] [5, 5, 5, 0, 0, 1]) (Tensor ''cpu'' [3, 1] [0, 1, 0])
           10 128 (1 / 100) (1 / 2) True)
         2 (1 / 10) 5 (1 / 5))
       (Tensor ''cpu'' [3, 2] [5, 5, 5, 0, 0, 1]) (Tensor ''cpu'' [3, 1] [0, 1, 0])
       (Tensor ''cpu'' [3, 1] [- 4, - 4, - 4]) 100 1024 True
     \<in> set (trace (main ex_env (parse_args Train [Opt_csv ''a.csv''])))"
    by (simp add: trace_def ex_train_run)
  from initial_score_minus_four [OF this]
  have "mode (parse_args Train [Opt_csv ''a.csv'']) = Train"
    by blast
  then show ?thesis
    by (simp add: trace_def ex_train_run)
qed

text \<open>
  Claim C8. \<^verbatim>\<open>--csv\<close> and \<^verbatim>\<open>--txt\<close> exclude each other: when both are supplied the
  only call of the run is the construction of the Preprocessor object; no file is
  opened or read, nothing is preprocessed, trained or clustered, and, the constructor
  having returned, the run ends with the ValueError of the script.
\<close>

theorem csv_txt_exclusive:
  assumes "csv a \<noteq> None" and "txt_arg a \<noteq> None"
  shows "trace (main E a) = [Preprocessor_init (length_arg a) (timeout a)] \<and>
         (raises E (Preprocessor_init (length_arg a) (timeout a)) = None \<longrightarrow>
            outcome (main E a) = Inl (Raised (ValueError ''Please specify EITHER --csv OR --txt.'')))"
  using assms
  by (simp add: main_def load_files_def trace_bind outcome_bind outcome_do_call
           split: sum.splits option.splits)

theorem csv_txt_exclusive_witness:
  "csv (parse_args Train [Opt_csv ''a.csv'', Opt_txt ''a.txt'']) \<noteq> None \<and>
   txt_arg (parse_args Train [Opt_csv ''a.csv'', Opt_txt ''a.txt'']) \<noteq> None \<and>
   raises ex_env (Preprocessor_init 10 86400) = None \<and>
   trace (main ex_env (parse_args Train [Opt_csv ''a.csv'', Opt_txt ''a.txt''])) =
     [Preprocessor_init 10 86400] \<and>
   outcome (main ex_env (parse_args Train [Opt_csv ''a.csv'', Opt_txt ''a.txt''])) =
     Inl (Raised (ValueError ''Please specify EITHER --csv OR --txt.''))"
  using csv_txt_exclusive [of "parse_args Train [Opt_csv ''a.csv'', Opt_txt ''a.txt'']" ex_env]
  by (simp add: parse_args_def default_args_def ex_env_def)

text \<open>
  Claim C9. Saves happen before loads, and what is loaded replaces what was computed.
  The calls that write or read state occur in the order save sequences, load sequences,
  save builder, load builder, save interpreter, load interpreter, each at most once and
  only when its option is set; in a run that ends normally they are exactly these calls.
  What is saved is what this run computed: the sequences returned by the preprocessor,
  the ContextBuilder as constructed (and fitted, in train mode) and the Interpreter as
  constructed (and fitted). What is used after a load is what was loaded: the sequences
  variables hold the loaded data, the Interpreter is constructed on and loaded with the
  loaded ContextBuilder, and the final variables hold the loaded objects.
\<close>

theorem saves_before_loads:
  "(\<exists>d0 bs dev i bl.
      prefix (filter persists (trace (main E a)))
        ((if truthy (save_sequences a) then [Torch_save d0 (path (save_sequences a))] else []) @
         (if truthy (load_sequences a) then [Torch_load (path (load_sequences a))] else []) @
         (if truthy (save_builder a) then [ContextBuilder_save bs (path (save_builder a))]
          else []) @
         (if truthy (load_builder a) then [ContextBuilder_load (path (load_builder a)) dev]
          else []) @
         (if truthy (save_interpreter a) then [Interpreter_save i (path (save_interpreter a))]
          else []) @
         (if truthy (load_interpreter a) then [Interpreter_load (path (load_interpreter a)) bl]
          else []))) \<and>
   (\<forall>r. outcome (main E a) = Inr r \<longrightarrow>
      (\<exists>d0 d n k.
         (truthy (save_sequences a) \<longrightarrow> outcome (load_files E a) = Inr (Some d0)) \<and>
         outcome (sequences E a) = Inr (Some d) \<and> events_in_use E a d = Some n \<and>
         (mode a = Train \<longrightarrow> shape0 (d_events d) = Some k) \<and>
         filter persists (trace (main E a)) =
           (if truthy (save_sequences a) then [Torch_save d0 (path (save_sequences a))] else []) @
           (if truthy (load_sequences a) then [Torch_load (path (load_sequences a))] else []) @
           (if truthy (save_builder a)
            then [ContextBuilder_save (computed_builder a (device_in_use E a) n d)
                    (path (save_builder a))] else []) @
           (if truthy (load_builder a)
            then [ContextBuilder_load (path (load_builder a)) (device_in_use E a)] else []) @
           (if truthy (save_interpreter a)
            then [Interpreter_save (computed_interpreter a (device_in_use E a) n d k)
                    (path (save_interpreter a))] else []) @
           (if truthy (load_interpreter a)
            then [Interpreter_load (path (load_interpreter a))
                    (builder_in_use a (device_in_use E a) n d)] else []) \<and>
         r = \<lparr> f_context_builder = builder_in_use a (device_in_use E a) n d,
               f_interpreter = interpreter_in_use a (device_in_use E a) n d k \<rparr>)) \<and>
   (\<forall>d p. Torch_save d p \<in> set (trace (main E a)) \<longrightarrow>
      p = path (save_sequences a) \<and> outcome (load_files E a) = Inr (Some d)) \<and>
   (\<forall>b p. ContextBuilder_save b p \<in> set (trace (main E a)) \<longrightarrow>
      p = path (save_builder a) \<and>
      (\<exists>d n. outcome (sequences E a) = Inr (Some d) \<and> events_in_use E a d = Some n \<and>
             b = computed_builder a (device_in_use E a) n d)) \<and>
   (\<forall>i p. Interpreter_save i p \<in> set (trace (main E a)) \<longrightarrow>
      p = path (save_interpreter a) \<and>
      (\<exists>d n k. outcome (sequences E a) = Inr (Some d) \<and> events_in_use E a d = Some n \<and>
             (mode a = Train \<longrightarrow> shape0 (d_events d) = Some k) \<and>
             i = computed_interpreter a (device_in_use E a) n d k)) \<and>
   (truthy (load_sequences a) \<longrightarrow>
      (\<forall>seq. outcome (sequences E a) = Inr seq \<longrightarrow>
         seq \<noteq> None \<and> seq = torch_load E (path (load_sequences a)))) \<and>
   (\<forall>b f e ms th. Interpreter_init b f e ms th \<in> set (trace (main E a)) \<longrightarrow>
      (\<exists>d n. outcome (sequences E a) = Inr (Some d) \<and> events_in_use E a d = Some n \<and>
             b = builder_in_use a (device_in_use E a) n d))"
proof (intro conjI)
  from emits_main [of E a] show "\<exists>d0 bs dev i bl.
      prefix (filter persists (trace (main E a)))
        ((if truthy (save_sequences a) then [Torch_save d0 (path (save_sequences a))] else []) @
         (if truthy (load_sequences a) then [Torch_load (path (load_sequences a))] else []) @
         (if truthy (save_builder a) then [ContextBuilder_save bs (path (save_builder a))]
          else []) @
         (if truthy (load_builder a) then [ContextBuilder_load (path (load_builder a)) dev]
          else []) @
         (if truthy (save_interpreter a) then [Interpreter_save i (path (save_interpreter a))]
          else []) @
         (if truthy (load_interpreter a) then [Interpreter_load (path (load_interpreter a)) bl]
          else []))"
    unfolding emits_def append_assoc by blast
next
  show "\<forall>r. outcome (main E a) = Inr r \<longrightarrow>
      (\<exists>d0 d n k.
         (truthy (save_sequences a) \<longrightarrow> outcome (load_files E a) = Inr (Some d0)) \<and>
         outcome (sequences E a) = Inr (Some d) \<and> events_in_use E a d = Some n \<and>
         (mode a = Train \<longrightarrow> shape0 (d_events d) = Some k) \<and>
         filter persists (trace (main E a)) =
           (if truthy (save_sequences a) then [Torch_save d0 (path (save_sequences a))] else []) @
           (if truthy (load_sequences a) then [Torch_load (path (load_sequences a))] else []) @
           (if truthy (save_builder a)
            then [ContextBuilder_save (computed_builder a (device_in_use E a) n d)
                    (path (save_builder a))] else []) @
           (if truthy (load_builder a)
            then [ContextBuilder_load (path (load_builder a)) (device_in_use E a)] else []) @
           (if truthy (save_interpreter a)
            then [Interpreter_save (computed_interpreter a (device_in_use E a) n d k)
                    (path (save_interpreter a))] else []) @
           (if truthy (load_interpreter a)
            then [Interpreter_load (path (load_interpreter a))
                    (builder_in_use a (device_in_use E a) n d)] else []) \<and>
         r = \<lparr> f_context_builder = builder_in_use a (device_in_use E a) n d,
               f_interpreter = interpreter_in_use a (device_in_use E a) n d k \<rparr>)"
    using finished_run [of E a] by blast
next
  show "\<forall>d p. Torch_save d p \<in> set (trace (main E a)) \<longrightarrow>
      p = path (save_sequences a) \<and> outcome (load_files E a) = Inr (Some d)"
    using torch_save_fresh [of _ _ E a] by blast
next
  show "\<forall>b p. ContextBuilder_save b p \<in> set (trace (main E a)) \<longrightarrow>
      p = path (save_builder a) \<and>
      (\<exists>d n. outcome (sequences E a) = Inr (Some d) \<and> events_in_use E a d = Some n \<and>
             b = computed_builder a (device_in_use E a) n d)"
    using builder_save_computed [of _ _ E a] by blast
next
  show "\<forall>i p. Interpreter_save i p \<in> set (trace (main E a)) \<longrightarrow>
      p = path (save_interpreter a) \<and>
      (\<exists>d n k. outcome (sequences E a) = Inr (Some d) \<and> events_in_use E a d = Some n \<and>
             (mode a = Train \<longrightarrow> shape0 (d_events d) = Some k) \<and>
             i = computed_interpreter a (device_in_use E a) n d k)"
    using interpreter_save_computed [of _ _ E a] by blast
next
  show "truthy (load_sequences a) \<longrightarrow>
      (\<forall>seq. outcome (sequences E a) = Inr seq \<longrightarrow>
         seq \<noteq> None \<and> seq = torch_load E (path (load_sequences a)))"
    using outcome_sequences [of E a] by auto
next
  show "\<forall>b f e ms th. Interpreter_init b f e ms th \<in> set (trace (main E a)) \<longrightarrow>
      (\<exists>d n. outcome (sequences E a) = Inr (Some d) \<and> events_in_use E a d = Some n \<and>
             b = builder_in_use a (device_in_use E a) n d)"
    using interpreter_init_in_use [of _ _ _ _ _ E a] by blast
qed

theorem saves_before_loads_witness:
  "outcome (main ex_env (parse_args Train
      [Opt_csv ''a.csv'', Opt_save_sequences ''s.save'', Opt_load_sequences ''s.load'',
       Opt_save_builder ''b.save'', Opt_load_builder ''b.load'',
       Opt_save_interpreter ''i.save'', Opt_load_interpreter ''i.load''])) =
     Inr \<lparr> f_context_builder = ContextBuilder_loaded ''b.load'' ''cpu'',
           f_interpreter =
             Interpreter_loaded ''i.load'' (ContextBuilder_loaded ''b.load'' ''cpu'') \<rparr> \<and>
   outcome (sequences ex_env (parse_args Train
      [Opt_csv ''a.csv'', Opt_save_sequences ''s.save'', Opt_load_sequences ''s.load'',
       Opt_save_builder ''b.save'', Opt_load_builder ''b.load'',
       Opt_save_interpreter ''i.save'', Opt_load_interpreter ''i.load''])) =
     Inr (Some ex_loaded) \<and>
   filter persists (trace (main ex_env (parse_args Train
      [Opt_csv ''a.csv'', Opt_save_sequences ''s.save'', Opt_load_sequences ''s.load'',
       Opt_save_builder ''b.save'', Opt_load_builder ''b.load'',
       Opt_save_interpreter ''i.save'', Opt_load_interpreter ''i.load'']))) =
     [Torch_save ex_data ''s.save'', Torch_load ''s.load'',
      ContextBuilder_save
        (ContextBuilder_fitted
          (ContextBuilder_moved (ContextBuilder_new 3 3 128 1 10 False False) ''cpu'')
          (Tensor ''cpu'' [2, 1] [5, 2]) (Tensor ''cpu'' [2, 1] [2, 1]) 10 128 (1 / 100) (1 / 2)
          True)
        ''b.save'',
      ContextBuilder_load ''b.load'' ''cpu'',
      Interpreter_save
        (Interpreter_fitted
          (Interpreter_new (ContextBuilder_loaded ''b.load'' ''cpu'') 3 (1 / 10) 5 (1 / 5))
          (Tensor ''cpu'' [2, 1] [5, 2]) (Tensor ''cpu'' [2, 1] [2, 1])
          (Tensor ''cpu'' [2, 1] [- 4, - 4]) 100 1024 True)
        ''i.save'',
      Interpreter_load ''i.load'' (ContextBuilder_loaded ''b.load'' ''cpu'')]"
proof -
  let ?a = "parse_args Train
      [Opt_csv ''a.csv'', Opt_save_sequences ''s.save'', Opt_load_sequences ''s.load'',
       Opt_save_builder ''b.save'', Opt_load_builder ''b.load'',
       Opt_save_interpreter ''i.save'', Opt_load_interpreter ''i.load'']"
  obtain r where "outcome (main ex_env ?a) = Inr r"
    by (simp add: outcome_def ex_save_load_run)
  with saves_before_loads [of ex_env ?a]
  have "\<exists>d. outcome (sequences ex_env ?a) = Inr (Some d)"
    by blast
  moreover have "outcome (sequences ex_env ?a) = Inr (Some ex_loaded)"
    by (simp add: run_defs ex_env_def)
  ultimately show ?thesis
    by (simp add: trace_def outcome_def ex_save_load_run)
qed

text \<open>
  Claim C10. The \<^verbatim>\<open>--events\<close> option sets the model dimensions. The input_size and the
  output_size of every ContextBuilder constructed and the features of every Interpreter
  constructed are \<^verbatim>\<open>len(mapping)\<close> of the sequences in use when the option is
  \<^verbatim>\<open>auto\<close>, and the integer value of the option otherwise; and a run that ends normally
  has constructed a ContextBuilder and an Interpreter with these dimensions.
\<close>

theorem events_option_sets_dimensions:
  "(\<forall>c i ou h nl ml bd ls b e ms th.
      c \<in> set (trace (main E a)) \<longrightarrow>
      c = ContextBuilder_init i ou h nl ml bd ls \<or> c = Interpreter_init b i e ms th \<longrightarrow>
      (\<exists>d. outcome (sequences E a) = Inr (Some d) \<and> events_in_use E a d = Some i) \<and>
      (c = ContextBuilder_init i ou h nl ml bd ls \<longrightarrow> ou = i)) \<and>
   (\<forall>r. outcome (main E a) = Inr r \<longrightarrow>
      (\<exists>d n. outcome (sequences E a) = Inr (Some d) \<and> events_in_use E a d = Some n \<and>
         ContextBuilder_init n n (hidden a) 1 (length_arg a) False False
           \<in> set (trace (main E a)) \<and>
         Interpreter_init (builder_in_use a (device_in_use E a) n d) n
             (epsilon a) (min_samples a) (confidence a)
           \<in> set (trace (main E a))))"
proof (rule conjI; intro allI impI)
  fix c i ou h nl ml bd ls b e ms th
  assume c: "c \<in> set (trace (main E a))"
    and k: "c = ContextBuilder_init i ou h nl ml bd ls \<or> c = Interpreter_init b i e ms th"
  have "\<exists>seq dev n ev ctx. outcome (prelude E a) = Inr seq \<and>
          outcome (set_auto E a seq) = Inr (dev, n, ev, ctx) \<and> i = n \<and>
          (c = ContextBuilder_init i ou h nl ml bd ls \<longrightarrow> ou = n)"
    using k
  proof
    assume e: "c = ContextBuilder_init i ou h nl ml bd ls"
    then have "stage_of c = Builder" by simp
    from reach_builder [OF c this] e show ?thesis
      by (auto dest: init_in_make_context_builder)
  next
    assume e: "c = Interpreter_init b i e ms th"
    then have "stage_of c = Interp" by simp
    from reach_interp [OF c this] e show ?thesis
      by (auto dest: init_in_make_interpreter)
  qed
  then obtain seq dev n ev ctx
    where p: "outcome (prelude E a) = Inr seq"
      and s: "outcome (set_auto E a seq) = Inr (dev, n, ev, ctx)"
      and i: "i = n" "c = ContextBuilder_init i ou h nl ml bd ls \<longrightarrow> ou = n"
    by blast
  from set_auto_in_use [OF s] obtain d :: seqdata
    where d: "seq = Some d" and n: "events_in_use E a d = Some n"
    by blast
  from outcome_prelude [OF p] d have "outcome (sequences E a) = Inr (Some d)" by simp
  with n i
  show "(\<exists>d. outcome (sequences E a) = Inr (Some d) \<and> events_in_use E a d = Some i) \<and>
      (c = ContextBuilder_init i ou h nl ml bd ls \<longrightarrow> ou = i)"
    by auto
next
  fix r assume "outcome (main E a) = Inr r"
  from outcome_main_Inr [OF this] obtain seq dev n ev ctx b
    where p: "outcome (prelude E a) = Inr seq"
      and s: "outcome (set_auto E a seq) = Inr (dev, n, ev, ctx)"
      and b: "outcome (make_context_builder E a dev n ev ctx) = Inr b"
      and t: "trace (main E a) =
             trace (prelude E a) @ trace (set_auto E a seq) @
             trace (make_context_builder E a dev n ev ctx) @
             trace (make_interpreter E a dev n ev ctx b) @ trace (analysis E a)"
    by blast
  from set_auto_in_use [OF s] obtain d :: seqdata
    where d: "seq = Some d" "ev = tensor_to (d_events d) dev"
             "ctx = tensor_to (d_context d) dev" "dev = device_in_use E a"
      and n: "events_in_use E a d = Some n"
    by blast
  from outcome_prelude [OF p] d have q: "outcome (sequences E a) = Inr (Some d)" by simp
  have bu: "b = builder_in_use a dev n d"
    using b d(2,3)
    by (auto simp: builder_in_use_def computed_builder_def make_context_builder_def Let_def step
          split: sum.splits option.splits if_splits)
  from t init_called_make_context_builder [of n a E dev ev ctx]
  have 1: "ContextBuilder_init n n (hidden a) 1 (length_arg a) False False
             \<in> set (trace (main E a))"
    by simp
  from t init_called_make_interpreter [of b n a E dev ev ctx]
  have 2: "Interpreter_init b n (epsilon a) (min_samples a) (confidence a)
             \<in> set (trace (main E a))"
    by simp
  from q n 1 2 bu d(4)
  show "\<exists>d n. outcome (sequences E a) = Inr (Some d) \<and> events_in_use E a d = Some n \<and>
         ContextBuilder_init n n (hidden a) 1 (length_arg a) False False
           \<in> set (trace (main E a)) \<and>
         Interpreter_init (builder_in_use a (device_in_use E a) n d) n
             (epsilon a) (min_samples a) (confidence a)
           \<in> set (trace (main E a))"
    by blast
qed

theorem events_option_sets_dimensions_witness:
  "events (parse_args Train [Opt_csv ''a.csv'']) = ''auto'' \<and>
   events_in_use ex_env (parse_args Train [Opt_csv ''a.csv'']) ex_data = Some 2 \<and>
   trace (main ex_env (parse_args Train [Opt_csv ''a.csv''])) ! 5 =
     ContextBuilder_init 2 2 128 1 10 False False \<and>
   trace (main ex_env (parse_args Train [Opt_csv ''a.csv''])) ! 8 =
     Interpreter_init
       (ContextBuilder_fitted
         (ContextBuilder_moved (ContextBuilder_new 2 2 128 1 10 False False) ''cpu'')
         (Tensor ''cpu'' [3, 2] [5, 5, 5, 0, 0, 1]) (Tensor ''cpu'' [3, 1] [0, 1, 0])
         10 128 (1 / 100) (1 / 2) True)
       2 (1 / 10) 5 (1 / 5) \<and>
   events (parse_args Train [Opt_csv ''a.csv'', Opt_events ''7'']) = ''7'' \<and>
   events_in_use ex_env (parse_args Train [Opt_csv ''a.csv'', Opt_events ''7'']) ex_data = Some 7 \<and>
   trace (main ex_env (parse_args Train [Opt_csv ''a.csv'', Opt_events ''7''])) ! 5 =
     ContextBuilder_init 7 7 128 1 10 False False \<and>
   trace (main ex_env (parse_args Train [Opt_csv ''a.csv'', Opt_events ''7''])) ! 8 =
     Interpreter_init
       (ContextBuilder_fitted
         (ContextBuilder_moved (ContextBuilder_new 7 7 128 1 10 False False) ''cpu'')
         (Tensor ''cpu'' [3, 2] [5, 5, 5, 0, 0, 1]) (Tensor ''cpu'' [3, 1] [0, 1, 0])
         10 128 (1 / 100) (1 / 2) True)
       7 (1 / 10) 5 (1 / 5)"
proof -
  let ?a = "parse_args Train [Opt_csv ''a.csv'']"
  let ?b = "parse_args Train [Opt_csv ''a.csv'', Opt_events ''7'']"
  have sa: "outcome (sequences ex_env ?a) = Inr (Some ex_data)"
    and sb: "outcome (sequences ex_env ?b) = Inr (Some ex_data)"
    by (simp_all add: run_defs ex_env_def)
  obtain r where "outcome (main ex_env ?a) = Inr r"
    by (simp add: outcome_def ex_train_run)
  with events_option_sets_dimensions [of ex_env ?a] sa
  have 1: "\<exists>n. events_in_use ex_env ?a ex_data = Some n \<and>
              ContextBuilder_init n n (hidden ?a) 1 (length_arg ?a) False False
                \<in> set (trace (main ex_env ?a))"
    by auto
  obtain r' where "outcome (main ex_env ?b) = Inr r'"
    by (simp add: outcome_def ex_train7_run)
  with events_option_sets_dimensions [of ex_env ?b] sb
  have 2: "\<exists>n. events_in_use ex_env ?b ex_data = Some n \<and>
              ContextBuilder_init n n (hidden ?b) 1 (length_arg ?b) False False
                \<in> set (trace (main ex_env ?b))"
    by auto
  have 3: "events_in_use ex_env ?a ex_data = Some 2" "events_in_use ex_env ?b ex_data = Some 7"
    by (simp_all add: events_in_use_def parse_args_def default_args_def len_mapping_def ex_defs)
  from 1 2 3 show ?thesis
    by (simp add: trace_def ex_train_run ex_train7_run) (simp add: parse_args_def default_args_def)
qed

end
